theory Spec2Isabelle
  imports Main "HOL-Library.Word" "HOL-Library.Sublist"
begin

unbundle bit_operations_syntax

section \<open>Go runtime: slices and panics\<close>

text \<open>
  A job is a Go \<^verbatim>\<open>[]string\<close>, the job list a \<^verbatim>\<open>[][]string\<close>. Indexing a slice out of
  range panics with "index out of range [i] with length n"; the panic is a value of the
  model, so that every \<^verbatim>\<open>job[k]\<close> of the source is a branch.
\<close>

type_synonym job = "string list"

datatype go_panic = IndexOutOfRange nat nat

definition index :: "'a list \<Rightarrow> nat \<Rightarrow> go_panic + 'a" where
  "index xs i = (if i < length xs then Inr (xs ! i) else Inl (IndexOutOfRange i (length xs)))"

text \<open>
  The outcome of one pass through a loop body: the body panics, returns from the
  enclosing function with a string, or falls through to the next iteration.
\<close>

datatype 'a flow = Panic go_panic | Return string | Continue 'a

section \<open>Go library: strings, net/url, path/filepath (Unix)\<close>

definition byte :: "char \<Rightarrow> nat" where
  "byte c = of_char c"

definition is_digit :: "char \<Rightarrow> bool" where
  "is_digit c = (48 \<le> byte c \<and> byte c \<le> 57)"

definition is_alnum :: "char \<Rightarrow> bool" where
  "is_alnum c = ((97 \<le> byte c \<and> byte c \<le> 122) \<or> (65 \<le> byte c \<and> byte c \<le> 90) \<or> is_digit c)"

text \<open>\<^verbatim>\<open>strings.HasSuffix\<close>.\<close>

definition HasSuffix :: "string \<Rightarrow> string \<Rightarrow> bool" where
  "HasSuffix s suf = (length suf \<le> length s \<and> drop (length s - length suf) s = suf)"

text \<open>
  The pieces of a string between the occurrences of a separator byte, in order
  (\<^verbatim>\<open>strings.Split\<close> for a one-byte separator); \<^verbatim>\<open>acc\<close> is the piece being read, reversed.
\<close>

fun split_on :: "char \<Rightarrow> string \<Rightarrow> string \<Rightarrow> string list" where
  "split_on sep acc [] = [rev acc]"
| "split_on sep acc (c # cs) = (if c = sep then rev acc # split_on sep [] cs else split_on sep (c # acc) cs)"

text \<open>
  \<^verbatim>\<open>strings.ReplaceAll(s, old, new)\<close> for a one-byte \<^verbatim>\<open>old\<close>, which is how the source
  calls it (\<^verbatim>\<open>old = "+"\<close>).
\<close>

fun ReplaceAll :: "string \<Rightarrow> char \<Rightarrow> string \<Rightarrow> string" where
  "ReplaceAll [] old new = []"
| "ReplaceAll (c # cs) old new = (if c = old then new @ ReplaceAll cs old new else c # ReplaceAll cs old new)"

text \<open>
  \<^verbatim>\<open>url.QueryEscape\<close>: \<^verbatim>\<open>shouldEscape\<close> in mode \<^verbatim>\<open>encodeQueryComponent\<close> keeps the
  unreserved bytes (letters, digits, \<^verbatim>\<open>- _ . ~\<close>); a space becomes \<^verbatim>\<open>+\<close>; every other byte
  becomes \<^verbatim>\<open>%XX\<close> in upper-case hexadecimal.
\<close>

definition shouldEscape :: "char \<Rightarrow> bool" where
  "shouldEscape c = (\<not> is_alnum c \<and> c \<notin> set ''-_.~'')"

definition upperhex :: "nat \<Rightarrow> char" where
  "upperhex n = ''0123456789ABCDEF'' ! (n mod 16)"

definition escape_byte :: "char \<Rightarrow> string" where
  "escape_byte c =
     (if c = CHR '' '' then ''+''
      else if shouldEscape c then [CHR ''%'', upperhex (byte c div 16), upperhex (byte c mod 16)]
      else [c])"

definition QueryEscape :: "string \<Rightarrow> string" where
  "QueryEscape s = concat (map escape_byte s)"

text \<open>\<^verbatim>\<open>filepath.Split\<close>: the path is cut after its final slash.\<close>

definition Split :: "string \<Rightarrow> string \<times> string" where
  "Split path =
     (let file = rev (takeWhile (\<lambda>c. c \<noteq> CHR ''/'') (rev path))
      in (take (length path - length file) path, file))"

text \<open>
  \<^verbatim>\<open>filepath.Clean\<close>, on the elements of the path between slashes. \<^verbatim>\<open>clean_elems\<close> is the
  loop of \<^verbatim>\<open>Clean\<close>: the output buffer is kept as the reversed list of the elements written
  so far. An empty element and \<^verbatim>\<open>.\<close> are dropped; \<^verbatim>\<open>..\<close> removes the last real element
  when there is one, is dropped at the root, and is kept in front of a relative path.
\<close>

fun clean_elems :: "bool \<Rightarrow> string list \<Rightarrow> string list \<Rightarrow> string list" where
  "clean_elems rooted out [] = rev out"
| "clean_elems rooted out (e # es) =
     (if e = [] \<or> e = ''.'' then clean_elems rooted out es
      else if e = ''..'' then
        (case out of
           [] \<Rightarrow> if rooted then clean_elems rooted [] es else clean_elems rooted [''..''] es
         | prev # below \<Rightarrow>
             if prev = ''..'' then clean_elems rooted (''..'' # out) es
             else clean_elems rooted below es)
      else clean_elems rooted (e # out) es)"

fun join_elems :: "string list \<Rightarrow> string" where
  "join_elems [] = []"
| "join_elems [e] = e"
| "join_elems (e # es) = e @ ''/'' @ join_elems es"

definition Clean :: "string \<Rightarrow> string" where
  "Clean path =
     (if path = [] then ''.''
      else
        (let rooted = (hd path = CHR ''/'');
             out = clean_elems rooted [] (split_on (CHR ''/'') [] path)
         in if rooted then ''/'' @ join_elems out
            else if out = [] then ''.''
            else join_elems out))"

text \<open>
  \<^verbatim>\<open>filepath.Join(dir, file)\<close>: empty elements are ignored, the rest is joined with a slash
  and the result is cleaned.
\<close>

definition Join :: "string \<Rightarrow> string \<Rightarrow> string" where
  "Join dir file =
     (if dir \<noteq> [] then Clean (dir @ ''/'' @ file)
      else if file \<noteq> [] then Clean file
      else [])"

text \<open>
  \<^verbatim>\<open>thumbRegex = ^(\d+)x(|\d+)(|>|#)$\<close> with \<^verbatim>\<open>FindStringSubmatch\<close>. The pattern is
  anchored at both ends and parses a string in at most one way: the digits before the
  \<^verbatim>\<open>x\<close>, the digits after it, and an operator that is empty, \<^verbatim>\<open>>\<close> or \<^verbatim>\<open>#\<close>. The result
  is \<^verbatim>\<open>None\<close> where Go returns a nil slice, and the three groups otherwise.
\<close>

definition thumbRegex :: "string \<Rightarrow> (string \<times> string \<times> string) option" where
  "thumbRegex s =
     (let width = takeWhile is_digit s; rest = dropWhile is_digit s
      in if width = [] then None
         else case rest of
                [] \<Rightarrow> None
              | c # rest' \<Rightarrow>
                  if c \<noteq> CHR ''x'' then None
                  else
                    (let height = takeWhile is_digit rest'; operation = dropWhile is_digit rest'
                     in if operation = [] \<or> operation = ''>'' \<or> operation = ''#''
                        then Some (width, height, operation)
                        else None))"

section \<open>The plugin: URL translation\<close>

definition customEscape :: "string \<Rightarrow> string" where
  "customEscape s = ReplaceAll (QueryEscape s) (CHR ''+'') ''%20''"

record gen_state =
  imgproxy_url :: string
  thumb_operation :: string
  is_gif :: bool
  is_svg :: bool

text \<open>
  The body of the loop of \<^verbatim>\<open>generate_imgproxy_url\<close> for a job tagged \<^verbatim>\<open>f\<close>:
  \<^verbatim>\<open>encodedFilePath\<close> is the path with its file name escaped, then the state is updated.
\<close>

definition encodedFilePath :: "string \<Rightarrow> string" where
  "encodedFilePath filePath =
     (let (dir, fileName) = Split filePath;
          encodedFileName = customEscape fileName
      in Join dir encodedFileName)"

definition fetch_job :: "gen_state \<Rightarrow> string \<Rightarrow> gen_state" where
  "fetch_job st filePath =
     (let url = ''/plain/'' @ (imgproxy_url st @ encodedFilePath filePath)
      in st\<lparr>imgproxy_url := url,
            is_gif := (if HasSuffix url ''.gif'' then True else is_gif st),
            is_svg := (if HasSuffix url ''.svg'' then True else is_svg st)\<rparr>)"

definition resize :: "string \<Rightarrow> string \<Rightarrow> string \<Rightarrow> string" where
  "resize width height operation =
     (if operation = ''>'' then ''/rs:fit:'' @ width @ '':'' @ height @ '':0''
      else if operation = ''#'' then ''/rs:fill:'' @ width @ '':'' @ height @ '':g:ce''
      else ''/rs:fit:'' @ width @ '':'' @ height)"

definition thumb_job :: "gen_state \<Rightarrow> string \<Rightarrow> gen_state flow" where
  "thumb_job st spec =
     (case thumbRegex spec of
        None \<Rightarrow> Return ''Failed to extract job''
      | Some (width, height, operation) \<Rightarrow>
          Continue (st\<lparr>thumb_operation :=
            thumb_operation st @ resize width height operation
              @ (if is_gif st then ''/f:gif'' else [])\<rparr>))"

definition gen_job :: "gen_state \<Rightarrow> job \<Rightarrow> gen_state flow" where
  "gen_job st job =
     (case index job 0 of
        Inl p \<Rightarrow> Panic p
      | Inr tag \<Rightarrow>
          if tag = ''f'' then
            (case index job 1 of
               Inl p \<Rightarrow> Panic p
             | Inr filePath \<Rightarrow> Continue (fetch_job st filePath))
          else if tag = ''p'' then
            (case index job 1 of
               Inl p \<Rightarrow> Panic p
             | Inr sub \<Rightarrow>
                 if sub = ''thumb'' then
                   (case index job 2 of
                      Inl p \<Rightarrow> Panic p
                    | Inr spec \<Rightarrow> thumb_job st spec)
                 else Continue st)
          else Continue st)"

fun gen_loop :: "gen_state \<Rightarrow> job list \<Rightarrow> gen_state flow" where
  "gen_loop st [] = Continue st"
| "gen_loop st (job # jobs) =
     (case gen_job st job of
        Panic p \<Rightarrow> Panic p
      | Return s \<Rightarrow> Return s
      | Continue st' \<Rightarrow> gen_loop st' jobs)"

definition gen_init :: "string \<Rightarrow> gen_state" where
  "gen_init url_prefix =
     \<lparr>imgproxy_url = url_prefix, thumb_operation = [], is_gif = False, is_svg = False\<rparr>"

definition gen_final :: "gen_state \<Rightarrow> string" where
  "gen_final st =
     ''/insecure'' @ thumb_operation st
       @ (if is_svg st then ''/f:svg'' @ imgproxy_url st else imgproxy_url st)"

text \<open>
  \<^verbatim>\<open>generate_imgproxy_url\<close>: \<^verbatim>\<open>Inl\<close> is a panic, \<^verbatim>\<open>Inr\<close> the returned string (the sentinel
  \<^verbatim>\<open>"Failed to extract job"\<close> is a returned string like any other).
\<close>

definition generate_imgproxy_url :: "string \<Rightarrow> job list \<Rightarrow> go_panic + string" where
  "generate_imgproxy_url url_prefix jobs =
     (case gen_loop (gen_init url_prefix) jobs of
        Panic p \<Rightarrow> Inl p
      | Return s \<Rightarrow> Inr s
      | Continue st \<Rightarrow> Inr (gen_final st))"

section \<open>Go library: crypto/sha256, crypto/hmac, fmt\<close>

text \<open>
  SHA-256 over bytes. A \<^verbatim>\<open>uint32\<close> is an \<^typ>\<open>int\<close> in the range from 0 to \<open>2 ^ 32 - 1\<close>;
  addition wraps around (\<open>take_bit 32\<close>), and the rotations and shifts are those of
  \<^verbatim>\<open>blockGeneric\<close>. A byte is an \<^typ>\<open>int\<close> from 0 to 255. \<^verbatim>\<open>K256\<close> holds the 64 round
  constants of the package (\<^verbatim>\<open>_K\<close>, from \<^verbatim>\<open>0x428a2f98\<close> to \<^verbatim>\<open>0xc67178f2\<close>) and
  \<^verbatim>\<open>init256\<close> the 8 initial hash values, both written in decimal.
\<close>

definition add32 :: "int \<Rightarrow> int \<Rightarrow> int" where
  "add32 x y = take_bit 32 (x + y)"

definition rotr :: "nat \<Rightarrow> int \<Rightarrow> int" where
  "rotr n x = drop_bit n x OR push_bit (32 - n) (take_bit n x)"

definition K256 :: "int list" where
  "K256 = [
    1116352408, 1899447441, 3049323471, 3921009573,
    961987163, 1508970993, 2453635748, 2870763221,
    3624381080, 310598401, 607225278, 1426881987,
    1925078388, 2162078206, 2614888103, 3248222580,
    3835390401, 4022224774, 264347078, 604807628,
    770255983, 1249150122, 1555081692, 1996064986,
    2554220882, 2821834349, 2952996808, 3210313671,
    3336571891, 3584528711, 113926993, 338241895,
    666307205, 773529912, 1294757372, 1396182291,
    1695183700, 1986661051, 2177026350, 2456956037,
    2730485921, 2820302411, 3259730800, 3345764771,
    3516065817, 3600352804, 4094571909, 275423344,
    430227734, 506948616, 659060556, 883997877,
    958139571, 1322822218, 1537002063, 1747873779,
    1955562222, 2024104815, 2227730452, 2361852424,
    2428436474, 2756734187, 3204031479, 3329325298]"

definition init256 :: "int list" where
  "init256 = [
    1779033703, 3144134277, 1013904242, 2773480762,
    1359893119, 2600822924, 528734635, 1541459225]"

definition sig0 :: "int \<Rightarrow> int" where
  "sig0 x = rotr 7 x XOR rotr 18 x XOR drop_bit 3 x"

definition sig1 :: "int \<Rightarrow> int" where
  "sig1 x = rotr 17 x XOR rotr 19 x XOR drop_bit 10 x"

definition Sig0 :: "int \<Rightarrow> int" where
  "Sig0 x = rotr 2 x XOR rotr 13 x XOR rotr 22 x"

definition Sig1 :: "int \<Rightarrow> int" where
  "Sig1 x = rotr 6 x XOR rotr 11 x XOR rotr 25 x"

definition Ch :: "int \<Rightarrow> int \<Rightarrow> int \<Rightarrow> int" where
  "Ch x y z = (x AND y) XOR ((4294967295 - x) AND z)"

definition Maj :: "int \<Rightarrow> int \<Rightarrow> int \<Rightarrow> int" where
  "Maj x y z = (x AND y) XOR (x AND z) XOR (y AND z)"

text \<open>
  The message schedule, most recent word first: one new word for each of the round
  constants 16 to 63.
\<close>

fun extend :: "int list \<Rightarrow> int list \<Rightarrow> int list" where
  "extend [] ws = ws"
| "extend (k # ks) ws =
     extend ks (add32 (add32 (sig1 (ws ! 1)) (ws ! 6)) (add32 (sig0 (ws ! 14)) (ws ! 15)) # ws)"

fun rnd :: "int \<Rightarrow> int \<Rightarrow> int list \<Rightarrow> int list" where
  "rnd t1 t2 [a, b, c, d, e, f, g, h] = [add32 t1 t2, a, b, c, add32 d t1, e, f, g]"
| "rnd t1 t2 st = st"

fun rounds :: "int list \<Rightarrow> (int \<times> int) list \<Rightarrow> int list" where
  "rounds [a, b, c, d, e, f, g, h] ((k, w) # kws) =
     rounds (rnd (add32 (add32 (add32 h (Sig1 e)) (Ch e f g)) (add32 k w))
                 (add32 (Sig0 a) (Maj a b c))
                 [a, b, c, d, e, f, g, h]) kws"
| "rounds st kws = st"

definition block :: "int list \<Rightarrow> int list \<Rightarrow> int list" where
  "block st ws = map2 add32 st (rounds st (zip K256 (rev (extend (drop 16 K256) (rev ws)))))"

fun be32 :: "int list \<Rightarrow> int list" where
  "be32 (a # b # c # d # r) = (push_bit 24 a OR push_bit 16 b OR push_bit 8 c OR d) # be32 r"
| "be32 r = []"

definition unbe32 :: "int \<Rightarrow> int list" where
  "unbe32 w = [take_bit 8 (drop_bit 24 w), take_bit 8 (drop_bit 16 w), take_bit 8 (drop_bit 8 w),
               take_bit 8 w]"

definition sha_pad :: "int list \<Rightarrow> int list" where
  "sha_pad m =
     m @ [128] @ replicate ((119 - length m mod 64) mod 64) 0
       @ map (\<lambda>i. take_bit 8 (drop_bit (8 * i) (int (8 * length m)))) [7, 6, 5, 4, 3, 2, 1, 0]"

fun compress :: "nat \<Rightarrow> int list \<Rightarrow> int list \<Rightarrow> int list" where
  "compress 0 st ws = st"
| "compress (Suc n) st ws = compress n (block st (take 16 ws)) (drop 16 ws)"

definition sha256 :: "int list \<Rightarrow> int list" where
  "sha256 m =
     (let ws = be32 (sha_pad m)
      in concat (map unbe32 (compress (length ws div 16) init256 ws)))"

text \<open>\<^verbatim>\<open>hmac.New(sha256.New, key)\<close>, \<^verbatim>\<open>Write(message)\<close>, \<^verbatim>\<open>Sum(nil)\<close>; the block size is 64.\<close>

definition hmac_sha256 :: "int list \<Rightarrow> int list \<Rightarrow> int list" where
  "hmac_sha256 key message =
     (let k = (if 64 < length key then sha256 key else key);
          padded = k @ replicate (64 - length k) 0
      in sha256 (map (\<lambda>b. b XOR 0x5c) padded @ sha256 (map (\<lambda>b. b XOR 0x36) padded @ message)))"

definition bytes :: "string \<Rightarrow> int list" where
  "bytes s = map (\<lambda>c. int (byte c)) s"

text \<open>\<^verbatim>\<open>fmt.Sprintf("%x", digest)\<close>: two lower-case hexadecimal digits for each byte.\<close>

definition lowerhex :: "nat \<Rightarrow> char" where
  "lowerhex n = ''0123456789abcdef'' ! (n mod 16)"

definition Sprintf_x :: "int list \<Rightarrow> string" where
  "Sprintf_x digest = concat (map (\<lambda>b. [lowerhex (nat b div 16), lowerhex (nat b mod 16)]) digest)"

section \<open>The plugin: signature\<close>

definition sha_job :: "string \<Rightarrow> job \<Rightarrow> go_panic + string" where
  "sha_job message job =
     (case index job 0 of
        Inl p \<Rightarrow> Inl p
      | Inr tag \<Rightarrow>
          if tag = ''f'' then
            (case index job 1 of
               Inl p \<Rightarrow> Inl p
             | Inr path \<Rightarrow> Inr (message @ ''f'' @ path))
          else if tag = ''p'' then
            (case index job 1 of
               Inl p \<Rightarrow> Inl p
             | Inr sub \<Rightarrow>
                 (case index job 2 of
                    Inl p \<Rightarrow> Inl p
                  | Inr spec \<Rightarrow> Inr (message @ ''p'' @ sub @ spec)))
          else Inr message)"

fun sha_loop :: "string \<Rightarrow> job list \<Rightarrow> go_panic + string" where
  "sha_loop message [] = Inr message"
| "sha_loop message (job # jobs) =
     (case sha_job message job of
        Inl p \<Rightarrow> Inl p
      | Inr message' \<Rightarrow> sha_loop message' jobs)"

definition sign :: "string \<Rightarrow> string \<Rightarrow> string" where
  "sign secret message = take 16 (Sprintf_x (hmac_sha256 (bytes secret) (bytes message)))"

definition calculateSHA :: "string \<Rightarrow> job list \<Rightarrow> go_panic + string" where
  "calculateSHA secret jobs =
     (case sha_loop [] jobs of
        Inl p \<Rightarrow> Inl p
      | Inr message \<Rightarrow> Inr (sign secret message))"

section \<open>Go library: unicode/utf8, regexp\<close>

text \<open>
  The width in bytes of the first rune of a string, as \<^verbatim>\<open>utf8.DecodeRuneInString\<close>
  reports it: a byte that does not start a well-formed encoding has width 1.
\<close>

definition cont :: "char \<Rightarrow> bool" where
  "cont c = (128 \<le> byte c \<and> byte c \<le> 191)"

definition rune_width :: "string \<Rightarrow> nat" where
  "rune_width s =
     (case s of
        [] \<Rightarrow> 0
      | c0 # r0 \<Rightarrow>
          if byte c0 < 194 \<or> 244 < byte c0 then 1
          else
            (case r0 of
               [] \<Rightarrow> 1
             | c1 # r1 \<Rightarrow>
                 if byte c1 < (if byte c0 = 224 then 160 else if byte c0 = 240 then 144 else 128)
                    \<or> (if byte c0 = 237 then 159 else if byte c0 = 244 then 143 else 191) < byte c1
                 then 1
                 else if byte c0 < 224 then 2
                 else
                   (case r1 of
                      [] \<Rightarrow> 1
                    | c2 # r2 \<Rightarrow>
                        if \<not> cont c2 then 1
                        else if byte c0 < 240 then 3
                        else
                          (case r2 of
                             [] \<Rightarrow> 1
                           | c3 # r3 \<Rightarrow> if cont c3 then 4 else 1))))"

text \<open>
  \<^verbatim>\<open>urlRegex = \/media\/(.+?)(\.gif|.png|.jpeg|.jpg|.webp|.avif|.svg)*$\<close>.

  \<^verbatim>\<open>ext_token s\<close> lists the lengths of the prefixes of \<^verbatim>\<open>s\<close> that one pass through the
  second group consumes: the literal \<^verbatim>\<open>.gif\<close>, or any one rune other than a newline (the
  unescaped dot) followed by one of the other six names.
\<close>

definition dot :: "string \<Rightarrow> nat option" where
  "dot s = (case s of [] \<Rightarrow> None | c # cs \<Rightarrow> if c = CHR 0x0A then None else Some (rune_width s))"

definition ext_name :: "string \<Rightarrow> string \<Rightarrow> nat \<Rightarrow> nat list" where
  "ext_name name s w = (if prefix name (drop w s) then [w + length name] else [])"

definition ext_token :: "string \<Rightarrow> nat list" where
  "ext_token s =
     (if prefix ''.gif'' s then [4] else []) @
     (case dot s of
        None \<Rightarrow> []
      | Some w \<Rightarrow>
          ext_name ''png'' s w @ ext_name ''jpeg'' s w @ ext_name ''jpg'' s w @
          ext_name ''webp'' s w @ ext_name ''avif'' s w @ ext_name ''svg'' s w)"

text \<open>
  \<^verbatim>\<open>ext_table s\<close> says, for \<^verbatim>\<open>s\<close> and each of its proper suffixes in turn, whether
  \<^verbatim>\<open>(...)*$\<close> matches it: the suffix is empty, or a token leads to a suffix that matches.
\<close>

fun any_at :: "bool list \<Rightarrow> nat list \<Rightarrow> bool" where
  "any_at t [] = False"
| "any_at t (n # ns) = ((n - 1 < length t \<and> t ! (n - 1)) \<or> any_at t ns)"

fun ext_table :: "string \<Rightarrow> bool list" where
  "ext_table [] = [True]"
| "ext_table (c # cs) = (let t = ext_table cs in any_at t (ext_token (c # cs)) # t)"

text \<open>
  The lazy group \<^verbatim>\<open>(.+?)\<close>: one rune other than a newline at a time, stopping at the first
  end of a rune after which the rest of the path is matched by \<^verbatim>\<open>(...)*$\<close>. \<^verbatim>\<open>k\<close> counts
  the bytes of the current rune still to be read (0 at the start of a rune), the last
  argument is the table of the bytes still to be read.
\<close>

fun lazy_group :: "nat \<Rightarrow> string \<Rightarrow> string \<Rightarrow> bool list \<Rightarrow> string option" where
  "lazy_group k acc (c # cs) (b # b' # bs) =
     (if k = 0 \<and> c = CHR 0x0A then None
      else if (if k = 0 then rune_width (c # cs) else k) = 1 then
        (if b' then Some (rev (c # acc)) else lazy_group 0 (c # acc) cs (b' # bs))
      else lazy_group ((if k = 0 then rune_width (c # cs) else k) - 1) (c # acc) cs (b' # bs))"
| "lazy_group k acc s t = None"

text \<open>
  \<^verbatim>\<open>urlRegex.FindStringSubmatch(path)\<close>: the leftmost place where \<^verbatim>\<open>/media/\<close> starts a
  match. \<^verbatim>\<open>None\<close> is Go's nil slice (length 0); otherwise the slice has length 3 and
  the result is its element 1, the only one the plugin reads.
\<close>

fun urlRegex :: "string \<Rightarrow> string option" where
  "urlRegex [] = None"
| "urlRegex (c # cs) =
     (case (if prefix ''/media/'' (c # cs)
            then lazy_group 0 [] (drop 7 (c # cs)) (ext_table (drop 7 (c # cs)))
            else None) of
        Some token \<Rightarrow> Some token
      | None \<Rightarrow> urlRegex cs)"

section \<open>Go library: net/url query parsing\<close>

text \<open>\<^verbatim>\<open>strings.Cut(s, sep)\<close> for a one-byte separator: the text before and after its first occurrence.\<close>

definition Cut :: "string \<Rightarrow> char \<Rightarrow> string \<times> string" where
  "Cut s sep = (takeWhile (\<lambda>c. c \<noteq> sep) s, drop 1 (dropWhile (\<lambda>c. c \<noteq> sep) s))"

definition ishex :: "char \<Rightarrow> bool" where
  "ishex c = (is_digit c \<or> (97 \<le> byte c \<and> byte c \<le> 102) \<or> (65 \<le> byte c \<and> byte c \<le> 70))"

definition unhex :: "char \<Rightarrow> nat" where
  "unhex c = (if is_digit c then byte c - 48 else if 97 \<le> byte c then byte c - 87 else byte c - 55)"

fun QueryUnescape :: "string \<Rightarrow> string option" where
  "QueryUnescape [] = Some []"
| "QueryUnescape (c # cs) =
     (if c = CHR ''%'' then
        (case cs of
           h1 # h2 # rest \<Rightarrow>
             if ishex h1 \<and> ishex h2
             then map_option ((#) (char_of (16 * unhex h1 + unhex h2))) (QueryUnescape rest)
             else None
         | _ \<Rightarrow> None)
      else if c = CHR ''+'' then map_option ((#) CHR '' '') (QueryUnescape cs)
      else map_option ((#) c) (QueryUnescape cs))"

text \<open>
  \<^verbatim>\<open>req.URL.Query()\<close>, that is \<^verbatim>\<open>url.ParseQuery(RawQuery)\<close> with its error dropped: the
  pairs that parse, in their order. A pair with a semicolon, an empty pair and a pair
  whose key or value does not unescape are skipped.
\<close>

definition parse_pair :: "string \<Rightarrow> (string \<times> string) option" where
  "parse_pair pair =
     (if CHR '';'' \<in> set pair \<or> pair = [] then None
      else
        (case QueryUnescape (fst (Cut pair (CHR ''=''))) of
           None \<Rightarrow> None
         | Some key \<Rightarrow>
             (case QueryUnescape (snd (Cut pair (CHR ''=''))) of
                None \<Rightarrow> None
              | Some v \<Rightarrow> Some (key, v))))"

definition Query :: "string \<Rightarrow> (string \<times> string) list" where
  "Query raw = List.map_filter parse_pair (split_on (CHR ''&'') [] raw)"

text \<open>\<^verbatim>\<open>Values.Get\<close>: the first value of the key, or the empty string.\<close>

definition Get :: "(string \<times> string) list \<Rightarrow> string \<Rightarrow> string" where
  "Get vs key = (case map_of vs key of None \<Rightarrow> [] | Some v \<Rightarrow> v)"

section \<open>Go library: encoding/base64\<close>

text \<open>
  \<^verbatim>\<open>base64.RawURLEncoding.DecodeString\<close>: carriage returns and line feeds are skipped,
  every other byte has to be of the URL alphabet, a trailing group of one character is
  corrupt, and the unused bits of a trailing group of two or three are not checked.
  \<^verbatim>\<open>None\<close> is a \<^verbatim>\<open>CorruptInputError\<close>.
\<close>

definition decodeMap :: "char \<Rightarrow> nat option" where
  "decodeMap c =
     (if 65 \<le> byte c \<and> byte c \<le> 90 then Some (byte c - 65)
      else if 97 \<le> byte c \<and> byte c \<le> 122 then Some (byte c - 71)
      else if is_digit c then Some (byte c + 4)
      else if c = CHR ''-'' then Some 62
      else if c = CHR ''_'' then Some 63
      else None)"

fun quanta :: "nat list \<Rightarrow> string option" where
  "quanta (a # b # c # d # r) =
     map_option (\<lambda>out. char_of (a * 4 + b div 16) # char_of (b mod 16 * 16 + c div 4)
                          # char_of (c mod 4 * 64 + d) # out) (quanta r)"
| "quanta [a, b, c] = Some [char_of (a * 4 + b div 16), char_of (b mod 16 * 16 + c div 4)]"
| "quanta [a, b] = Some [char_of (a * 4 + b div 16)]"
| "quanta [a] = None"
| "quanta [] = Some []"

fun sextets :: "string \<Rightarrow> nat list option" where
  "sextets [] = Some []"
| "sextets (c # cs) =
     (if c = CHR 0x0A \<or> c = CHR 0x0D then sextets cs
      else
        (case decodeMap c of
           None \<Rightarrow> None
         | Some v \<Rightarrow> map_option ((#) v) (sextets cs)))"

definition DecodeString :: "string \<Rightarrow> string option" where
  "DecodeString s = (case sextets s of None \<Rightarrow> None | Some vs \<Rightarrow> quanta vs)"

section \<open>Go library: encoding/json into a value of type [][]string\<close>

text \<open>
  \<^verbatim>\<open>json.Unmarshal(data, &jobs)\<close> returns no error exactly when the data is one JSON value
  that is \<^verbatim>\<open>null\<close> or an array whose elements are \<^verbatim>\<open>null\<close> or arrays of strings and
  \<^verbatim>\<open>null\<close>s. Any other text gives a \<^verbatim>\<open>SyntaxError\<close> or an \<^verbatim>\<open>UnmarshalTypeError\<close>, which
  the plugin does not tell apart; both are \<^verbatim>\<open>None\<close> here. So the tokens of the model are
  the brackets, the comma, \<^verbatim>\<open>null\<close> and the string literals.

  \<^verbatim>\<open>EncodeRune\<close> is the UTF-8 encoding of a code point, the replacement character
  \<^verbatim>\<open>U+FFFD\<close> for a surrogate.
\<close>

datatype token = LBrack | RBrack | Comma | Null | Str string

definition RuneError :: string where
  "RuneError = [CHR 0xEF, CHR 0xBF, CHR 0xBD]"

definition EncodeRune :: "nat \<Rightarrow> string" where
  "EncodeRune r =
     (if r < 128 then [char_of r]
      else if r < 2048 then [char_of (192 + r div 64), char_of (128 + r mod 64)]
      else if (55296 \<le> r \<and> r < 57344) \<or> 1114111 < r then RuneError
      else if r < 65536 then
        [char_of (224 + r div 4096), char_of (128 + r div 64 mod 64), char_of (128 + r mod 64)]
      else
        [char_of (240 + r div 262144), char_of (128 + r div 4096 mod 64),
         char_of (128 + r div 64 mod 64), char_of (128 + r mod 64)])"

definition getu4 :: "char \<Rightarrow> char \<Rightarrow> char \<Rightarrow> char \<Rightarrow> nat option" where
  "getu4 a b c d =
     (if ishex a \<and> ishex b \<and> ishex c \<and> ishex d
      then Some (4096 * unhex a + 256 * unhex b + 16 * unhex c + unhex d)
      else None)"

text \<open>The second half of a surrogate pair, read ahead after a high surrogate \<^verbatim>\<open>r1\<close>.\<close>

definition low_surrogate :: "nat \<Rightarrow> string \<Rightarrow> nat option" where
  "low_surrogate r1 s =
     (case s of
        bs # u # a # b # c # d # rest \<Rightarrow>
          if bs = CHR 0x5C \<and> u = CHR ''u'' \<and> r1 < 56320 then
            (case getu4 a b c d of
               None \<Rightarrow> None
             | Some r2 \<Rightarrow>
                 if 56320 \<le> r2 \<and> r2 < 57344
                 then Some (65536 + (r1 - 55296) * 1024 + (r2 - 56320))
                 else None)
          else None
      | _ \<Rightarrow> None)"

definition simple_escape :: "char \<Rightarrow> char option" where
  "simple_escape e =
     (if e = CHR 0x22 \<or> e = CHR 0x5C \<or> e = CHR ''/'' then Some e
      else if e = CHR ''b'' then Some (CHR 0x08)
      else if e = CHR ''f'' then Some (CHR 0x0C)
      else if e = CHR ''n'' then Some (CHR 0x0A)
      else if e = CHR ''r'' then Some (CHR 0x0D)
      else if e = CHR ''t'' then Some (CHR 0x09)
      else None)"

definition tcons :: "token \<Rightarrow> token list option \<Rightarrow> token list option" where
  "tcons t r = map_option ((#) t) r"

text \<open>
  The scanner. The first argument is \<^verbatim>\<open>None\<close> between tokens and \<^verbatim>\<open>Some acc\<close> inside a
  string literal, \<^verbatim>\<open>acc\<close> being the unquoted text read so far, reversed. Inside a literal
  the bytes are unquoted as \<^verbatim>\<open>unquote\<close> does: escapes are replaced, and a byte that is
  not part of well-formed UTF-8 becomes \<^verbatim>\<open>U+FFFD\<close>.
\<close>

fun lex :: "string option \<Rightarrow> string \<Rightarrow> token list option" where
  "lex None [] = Some []"
| "lex (Some acc) [] = None"
| "lex None (c # cs) =
     (if c = CHR '' '' \<or> c = CHR 0x09 \<or> c = CHR 0x0A \<or> c = CHR 0x0D then lex None cs
      else if c = CHR ''['' then tcons LBrack (lex None cs)
      else if c = CHR '']'' then tcons RBrack (lex None cs)
      else if c = CHR '','' then tcons Comma (lex None cs)
      else if c = CHR 0x22 then lex (Some []) cs
      else if c = CHR ''n'' then
        (case cs of
           u # l # l' # rest \<Rightarrow>
             if u = CHR ''u'' \<and> l = CHR ''l'' \<and> l' = CHR ''l'' then tcons Null (lex None rest)
             else None
         | _ \<Rightarrow> None)
      else None)"
| "lex (Some acc) (c # cs) =
     (if c = CHR 0x22 then tcons (Str (rev acc)) (lex None cs)
      else if c = CHR 0x5C then
        (case cs of
           [] \<Rightarrow> None
         | e # rest \<Rightarrow>
             if e = CHR ''u'' then
               (case rest of
                  h1 # h2 # h3 # h4 # rest' \<Rightarrow>
                    (case getu4 h1 h2 h3 h4 of
                       None \<Rightarrow> None
                     | Some r \<Rightarrow>
                         if 55296 \<le> r \<and> r < 57344 then
                           (case low_surrogate r rest' of
                              Some r' \<Rightarrow> lex (Some (rev (EncodeRune r') @ acc)) (drop 6 rest')
                            | None \<Rightarrow> lex (Some (rev RuneError @ acc)) rest')
                         else lex (Some (rev (EncodeRune r) @ acc)) rest')
                | _ \<Rightarrow> None)
             else
               (case simple_escape e of
                  None \<Rightarrow> None
                | Some x \<Rightarrow> lex (Some (x # acc)) rest))
      else if byte c < 32 then None
      else if byte c < 128 then lex (Some (c # acc)) cs
      else if rune_width (c # cs) = 1 then lex (Some (rev RuneError @ acc)) cs
      else lex (Some (rev (take (rune_width (c # cs)) (c # cs)) @ acc)) (drop (rune_width (c # cs) - 1) cs))"

text \<open>
  The parser, a state for each place in a value of type \<^verbatim>\<open>[][]string\<close>. A \<^verbatim>\<open>null\<close> in
  the place of a job is a nil slice (length 0), in the place of a string the empty
  string, and alone it leaves \<^verbatim>\<open>jobs\<close> nil.
\<close>

datatype pstate =
    Start
  | OuterOpen
  | OuterAfter "job list"
  | OuterComma "job list"
  | InnerOpen "job list"
  | InnerAfter "job list" job
  | InnerComma "job list" job
  | Finished "job list"

fun pstep :: "pstate \<Rightarrow> token \<Rightarrow> pstate option" where
  "pstep Start Null = Some (Finished [])"
| "pstep Start LBrack = Some OuterOpen"
| "pstep OuterOpen RBrack = Some (Finished [])"
| "pstep OuterOpen Null = Some (OuterAfter [[]])"
| "pstep OuterOpen LBrack = Some (InnerOpen [])"
| "pstep (OuterAfter jobs) RBrack = Some (Finished jobs)"
| "pstep (OuterAfter jobs) Comma = Some (OuterComma jobs)"
| "pstep (OuterComma jobs) Null = Some (OuterAfter (jobs @ [[]]))"
| "pstep (OuterComma jobs) LBrack = Some (InnerOpen jobs)"
| "pstep (InnerOpen jobs) RBrack = Some (OuterAfter (jobs @ [[]]))"
| "pstep (InnerOpen jobs) Null = Some (InnerAfter jobs [[]])"
| "pstep (InnerOpen jobs) (Str x) = Some (InnerAfter jobs [x])"
| "pstep (InnerAfter jobs job) RBrack = Some (OuterAfter (jobs @ [job]))"
| "pstep (InnerAfter jobs job) Comma = Some (InnerComma jobs job)"
| "pstep (InnerComma jobs job) Null = Some (InnerAfter jobs (job @ [[]]))"
| "pstep (InnerComma jobs job) (Str x) = Some (InnerAfter jobs (job @ [x]))"
| "pstep st t = None"

fun prun :: "pstate \<Rightarrow> token list \<Rightarrow> pstate option" where
  "prun st [] = Some st"
| "prun st (t # ts) = (case pstep st t of None \<Rightarrow> None | Some st' \<Rightarrow> prun st' ts)"

definition Unmarshal :: "string \<Rightarrow> job list option" where
  "Unmarshal data =
     (case lex None data of
        None \<Rightarrow> None
      | Some ts \<Rightarrow>
          (case prun Start ts of
             Some (Finished jobs) \<Rightarrow> Some jobs
           | _ \<Rightarrow> None))"

section \<open>The plugin: ServeHTTP\<close>

record Config =
  DragonflySecret :: string
  URLPrefix :: string

text \<open>
  The fields of \<^verbatim>\<open>*http.Request\<close> that the plugin reads or writes. The header is the
  list of its keys with their values, each key once.
\<close>

record request =
  URL_Path :: string
  URL_RawQuery :: string
  RequestURI :: string
  Header :: "(string \<times> string list) list"

definition Header_Del :: "(string \<times> string list) list \<Rightarrow> string \<Rightarrow> (string \<times> string list) list" where
  "Header_Del h key = filter (\<lambda>kv. fst kv \<noteq> key) h"

text \<open>
  What \<^verbatim>\<open>ServeHTTP\<close> did: one of its five calls of \<^verbatim>\<open>http.Error\<close> with the status, a
  call of \<^verbatim>\<open>d.next.ServeHTTP\<close>, or a panic. The bodies of the responses are
  "Failed to extract base64 string from URL.", "Failed to get sha from query string.",
  the text of the decoder's error (twice) and "SHA validate failed".
\<close>

datatype failure = ExtractFailed | ShaMissing | Base64Error | JSONError | ShaInvalid

datatype outcome = HttpError nat failure | NextServeHTTP | Panicked go_panic

definition StatusInternalServerError :: nat where
  "StatusInternalServerError = 500"

definition rewrite :: "request \<Rightarrow> string \<Rightarrow> request" where
  "rewrite req url =
     (if Get (Query (URL_RawQuery req)) ''convert'' = ''false''
      then req\<lparr>Header := Header_Del (Header req) ''Accept''\<rparr>
      else req)
     \<lparr>URL_Path := url, URL_RawQuery := [], RequestURI := url\<rparr>"

text \<open>
  \<^verbatim>\<open>ServeHTTP\<close> returns what it did and the request as it has left it.
\<close>

definition ServeHTTP :: "Config \<Rightarrow> request \<Rightarrow> outcome \<times> request" where
  "ServeHTTP d req =
     (case urlRegex (URL_Path req) of
        None \<Rightarrow> (HttpError StatusInternalServerError ExtractFailed, req)
      | Some base64String \<Rightarrow>
          if length (Get (Query (URL_RawQuery req)) ''sha'') = 0
          then (HttpError StatusInternalServerError ShaMissing, req)
          else
            (case DecodeString base64String of
               None \<Rightarrow> (HttpError StatusInternalServerError Base64Error, req)
             | Some job_string \<Rightarrow>
                 (case Unmarshal job_string of
                    None \<Rightarrow> (HttpError StatusInternalServerError JSONError, req)
                  | Some jobs \<Rightarrow>
                      (case calculateSHA (DragonflySecret d) jobs of
                         Inl p \<Rightarrow> (Panicked p, req)
                       | Inr computed \<Rightarrow>
                           if computed \<noteq> Get (Query (URL_RawQuery req)) ''sha''
                           then (HttpError StatusInternalServerError ShaInvalid, req)
                           else
                             (case generate_imgproxy_url (URLPrefix d) jobs of
                                Inl p \<Rightarrow> (Panicked p, req)
                              | Inr url \<Rightarrow> (NextServeHTTP, rewrite req url))))))"

section \<open>Notions used to state the properties\<close>

text \<open>
  A job has the operands that \<^verbatim>\<open>calculateSHA\<close> reads: a tag, for the tag \<^verbatim>\<open>f\<close> a path,
  for the tag \<^verbatim>\<open>p\<close> two operands.
\<close>

definition shaped :: "job \<Rightarrow> bool" where
  "shaped job =
     (job \<noteq> [] \<and> (hd job = ''f'' \<longrightarrow> 2 \<le> length job) \<and> (hd job = ''p'' \<longrightarrow> 3 \<le> length job))"

text \<open>What a job adds to the message that \<^verbatim>\<open>calculateSHA\<close> signs.\<close>

definition signed_part :: "job \<Rightarrow> string" where
  "signed_part job =
     (if hd job = ''f'' then ''f'' @ job ! 1
      else if hd job = ''p'' then ''p'' @ job ! 1 @ job ! 2
      else [])"

text \<open>
  The canonical message as the specification words it: a fetch job adds its tag and
  path, a \<^verbatim>\<open>p\<close> job with the sub-operation \<^verbatim>\<open>thumb\<close> adds its tag, sub-operation and
  size, and every other job adds nothing.
\<close>

definition spec_part :: "job \<Rightarrow> string" where
  "spec_part job =
     (if hd job = ''f'' then ''f'' @ job ! 1
      else if hd job = ''p'' \<and> job ! 1 = ''thumb'' then ''p'' @ job ! 1 @ job ! 2
      else [])"

definition spec_message :: "job list \<Rightarrow> string" where
  "spec_message jobs = concat (map spec_part jobs)"

text \<open>
  A job that \<^verbatim>\<open>generate_imgproxy_url\<close> passes over: it has a tag other than \<^verbatim>\<open>f\<close>, and
  if the tag is \<^verbatim>\<open>p\<close> it has a sub-operation other than \<^verbatim>\<open>thumb\<close>.
\<close>

definition inert :: "job \<Rightarrow> bool" where
  "inert job =
     (job \<noteq> [] \<and> hd job \<noteq> ''f'' \<and> (hd job = ''p'' \<longrightarrow> 2 \<le> length job \<and> job ! 1 \<noteq> ''thumb''))"

text \<open>
  An element of a path that \<^verbatim>\<open>Clean\<close> keeps as it is, and a directory made of such
  elements, each followed by a slash.
\<close>

definition plain_elem :: "string \<Rightarrow> bool" where
  "plain_elem e = (e \<noteq> [] \<and> CHR ''/'' \<notin> set e \<and> e \<noteq> ''.'' \<and> e \<noteq> ''..'')"

definition dir_of :: "bool \<Rightarrow> string list \<Rightarrow> string" where
  "dir_of rooted es = (if rooted then ''/'' else []) @ concat (map (\<lambda>e. e @ ''/'') es)"

text \<open>
  The constants and the request of the plugin's tests: the secret, the prefix, and the
  path of a request for the jobs \<^verbatim>\<open>[["f","public/images/test.jpg"],["p","thumb","400x300#"]]\<close>.
\<close>

definition testSecret :: string where
  "testSecret = ''my-super-secret-key''"

definition testURLPrefix :: string where
  "testURLPrefix = ''https://images.example.com/''"

definition testConfig :: Config where
  "testConfig = \<lparr>DragonflySecret = testSecret, URLPrefix = testURLPrefix\<rparr>"

definition testPath :: string where
  "testPath = ''/media/W1siZiIsInB1YmxpYy9pbWFnZXMvdGVzdC5qcGciXSxbInAiLCJ0aHVtYiIsIjQwMHgzMDAjIl1d.jpg''"

definition testRequest :: "string \<Rightarrow> string \<Rightarrow> request" where
  "testRequest path query =
     \<lparr>URL_Path = path, URL_RawQuery = query,
      RequestURI = (if query = [] then path else path @ ''?'' @ query),
      Header = [(''Accept'', [''image/avif,image/webp,*/*''])]\<rparr>"

section \<open>Size specifications and resize directives\<close>

lemma index_simps:
  "index (x # xs) 0 = Inr x"
  "index (x # y # xs) 1 = Inr y"
  "index (x # y # xs) (Suc 0) = Inr y"
  "index (x # y # z # xs) 2 = Inr z"
  "index [] n = Inl (IndexOutOfRange n 0)"
  by (simp_all add: index_def)

lemma not_digit_x: "\<not> is_digit (CHR ''x'')"
  by (simp add: is_digit_def byte_def)

lemma takeWhile_all: "list_all P xs \<Longrightarrow> takeWhile P (xs @ y # ys) = (if P y then xs @ takeWhile P (y # ys) else xs)"
  by (induction xs) auto

lemma dropWhile_all: "list_all P xs \<Longrightarrow> dropWhile P (xs @ ys) = dropWhile P ys"
  by (induction xs) auto

lemma takeWhile_all': "list_all P xs \<Longrightarrow> takeWhile P (xs @ ys) = xs @ takeWhile P ys"
  by (induction xs) auto

lemma thumbRegex_matches:
  assumes "width \<noteq> []" "list_all is_digit width" "list_all is_digit height"
    and "operation = [] \<or> operation = ''>'' \<or> operation = ''#''"
  shows "thumbRegex (width @ ''x'' @ height @ operation) = Some (width, height, operation)"
proof -
  have op: "takeWhile is_digit operation = []" "dropWhile is_digit operation = operation"
    using assms(4) by (auto simp: is_digit_def byte_def)
  have w: "takeWhile is_digit (width @ CHR ''x'' # height @ operation) = width"
    using assms(2) by (simp add: takeWhile_all' not_digit_x)
  have d: "dropWhile is_digit (width @ CHR ''x'' # height @ operation) = CHR ''x'' # height @ operation"
    using assms(2) by (simp add: dropWhile_all not_digit_x)
  have h: "takeWhile is_digit (height @ operation) = height"
    using assms(3) op by (simp add: takeWhile_all')
  have r: "dropWhile is_digit (height @ operation) = operation"
    using assms(3) op by (simp add: dropWhile_all)
  show ?thesis
    using assms(1,4) by (simp add: thumbRegex_def w d h r Let_def del: dropWhile_eq_Nil_conv)
qed

text \<open>
  Claim C6. For a thumb job whose size is the width (digits), an \<^verbatim>\<open>x\<close>, the height
  (digits or nothing) and an operator, the directive that the job appends is fixed by the
  operator: \<^verbatim>\<open>#\<close> gives \<^verbatim>\<open>/rs:fill:width:height:g:ce\<close>, \<^verbatim>\<open>>\<close> gives
  \<^verbatim>\<open>/rs:fit:width:height:0\<close>, and no operator gives \<^verbatim>\<open>/rs:fit:width:height\<close>. The sizes
  \<^verbatim>\<open>100x100#\<close>, \<^verbatim>\<open>200x>\<close> and \<^verbatim>\<open>300x\<close> give \<^verbatim>\<open>/rs:fill:100:100:g:ce\<close>,
  \<^verbatim>\<open>/rs:fit:200::0\<close> and \<^verbatim>\<open>/rs:fit:300:\<close>.
\<close>

theorem thumb_directive_by_operator:
  assumes "width \<noteq> []" "list_all is_digit width" "list_all is_digit height"
    and "operation = [] \<or> operation = ''>'' \<or> operation = ''#''"
  shows "gen_job st [''p'', ''thumb'', width @ ''x'' @ height @ operation] =
           Continue (st\<lparr>thumb_operation := thumb_operation st @
              (if operation = ''#'' then ''/rs:fill:'' @ width @ '':'' @ height @ '':g:ce''
               else if operation = ''>'' then ''/rs:fit:'' @ width @ '':'' @ height @ '':0''
               else ''/rs:fit:'' @ width @ '':'' @ height)
              @ (if is_gif st then ''/f:gif'' else [])\<rparr>)
         \<and> generate_imgproxy_url [] [[''p'', ''thumb'', ''100x100#'']] = Inr ''/insecure/rs:fill:100:100:g:ce''
         \<and> generate_imgproxy_url [] [[''p'', ''thumb'', ''200x>'']] = Inr ''/insecure/rs:fit:200::0''
         \<and> generate_imgproxy_url [] [[''p'', ''thumb'', ''300x'']] = Inr ''/insecure/rs:fit:300:''"
proof -
  have "gen_job st [''p'', ''thumb'', width @ ''x'' @ height @ operation] =
          thumb_job st (width @ ''x'' @ height @ operation)"
    by (simp add: gen_job_def index_simps)
  moreover have "thumb_job st (width @ ''x'' @ height @ operation) =
      Continue (st\<lparr>thumb_operation := thumb_operation st @ resize width height operation
        @ (if is_gif st then ''/f:gif'' else [])\<rparr>)"
    using thumbRegex_matches [OF assms] by (simp add: thumb_job_def)
  moreover have "generate_imgproxy_url [] [[''p'', ''thumb'', ''100x100#'']] = Inr ''/insecure/rs:fill:100:100:g:ce''"
    by code_simp
  moreover have "generate_imgproxy_url [] [[''p'', ''thumb'', ''200x>'']] = Inr ''/insecure/rs:fit:200::0''"
    by code_simp
  moreover have "generate_imgproxy_url [] [[''p'', ''thumb'', ''300x'']] = Inr ''/insecure/rs:fit:300:''"
    by code_simp
  ultimately show ?thesis
    using assms(4) by (auto simp: resize_def)
qed

theorem thumb_directive_by_operator_witness:
  "''150'' \<noteq> [] \<and> list_all is_digit ''150'' \<and> list_all is_digit ''75''
   \<and> gen_job (gen_init ''P'') [''p'', ''thumb'', ''150x75#''] =
       Continue \<lparr>imgproxy_url = ''P'', thumb_operation = ''/rs:fill:150:75:g:ce'', is_gif = False, is_svg = False\<rparr>"
proof -
  have a: "''150'' \<noteq> []" by simp
  have b: "list_all is_digit ''150''" by code_simp
  have c: "list_all is_digit ''75''" by code_simp
  have d: "''#'' = [] \<or> ''#'' = ''>'' \<or> ''#'' = ''#''" by simp
  show ?thesis
    using a b c thumb_directive_by_operator [OF a b c d, of "gen_init ''P''"]
    by (simp add: gen_init_def)
qed

section \<open>The signature\<close>















section \<open>The signed message\<close>

lemma sha_job_shaped: "shaped job \<Longrightarrow> sha_job message job = Inr (message @ signed_part job)"
proof -
  assume sh: "shaped job"
  then obtain tag rest where job: "job = tag # rest"
    by (cases job) (auto simp: shaped_def)
  show ?thesis
  proof (cases "tag = ''f''")
    case True
    with sh job obtain path rest' where "rest = path # rest'"
      by (cases rest) (auto simp: shaped_def)
    with True job show ?thesis
      by (simp add: sha_job_def signed_part_def index_simps)
  next
    case False
    show ?thesis
    proof (cases "tag = ''p''")
      case True
      with sh job obtain sub spec rest' where "rest = sub # spec # rest'"
        by (cases rest; cases "tl rest") (auto simp: shaped_def)
      with True job show ?thesis
        by (simp add: sha_job_def signed_part_def index_simps)
    next
      case no_p: False
      with False job show ?thesis
        by (simp add: sha_job_def signed_part_def index_simps)
    qed
  qed
qed

lemma sha_loop_shaped:
  "list_all shaped jobs \<Longrightarrow> sha_loop message jobs = Inr (message @ concat (map signed_part jobs))"
  by (induction jobs arbitrary: message) (simp_all add: sha_job_shaped)

text \<open>
  Claim C3, as stated, fails: a \<^verbatim>\<open>p\<close> job whose sub-operation is not \<^verbatim>\<open>thumb\<close> adds its
  tag, sub-operation and size to the signed message, where the claim has it add nothing.
\<close>

theorem signed_message_counterexample:
  "sha_loop [] [[''p'', ''crop'', ''10x10'']] = Inr ''pcrop10x10''
   \<and> spec_message [[''p'', ''crop'', ''10x10'']] = []"
  by code_simp

text \<open>
  Claim C3, amended. For every job list whose jobs have the operands that are read, the
  signed message is the concatenation, in order, of the tag and path of each \<^verbatim>\<open>f\<close> job
  and of the tag, sub-operation and size of each \<^verbatim>\<open>p\<close> job, whatever its sub-operation;
  jobs with another tag add nothing. On jobs other than \<^verbatim>\<open>p\<close> jobs with an unrecognized
  sub-operation this is the message of the specification.
\<close>

theorem signed_message_all_p_jobs:
  "list_all shaped jobs \<longrightarrow>
     sha_loop [] jobs = Inr (concat (map signed_part jobs))
     \<and> calculateSHA secret jobs = Inr (sign secret (concat (map signed_part jobs)))
     \<and> (\<forall>job \<in> set jobs.
           (hd job = ''f'' \<longrightarrow> signed_part job = ''f'' @ job ! 1)
         \<and> (hd job = ''p'' \<longrightarrow> signed_part job = ''p'' @ job ! 1 @ job ! 2)
         \<and> (hd job \<noteq> ''f'' \<and> hd job \<noteq> ''p'' \<longrightarrow> signed_part job = [])
         \<and> ((hd job = ''p'' \<longrightarrow> job ! 1 = ''thumb'') \<longrightarrow> signed_part job = spec_part job))"
proof
  assume sh: "list_all shaped jobs"
  have "sha_loop [] jobs = Inr (concat (map signed_part jobs))"
    using sha_loop_shaped [OF sh, of "[]"] by simp
  moreover from this have "calculateSHA secret jobs = Inr (sign secret (concat (map signed_part jobs)))"
    by (simp add: calculateSHA_def)
  ultimately show "sha_loop [] jobs = Inr (concat (map signed_part jobs))
     \<and> calculateSHA secret jobs = Inr (sign secret (concat (map signed_part jobs)))
     \<and> (\<forall>job \<in> set jobs.
           (hd job = ''f'' \<longrightarrow> signed_part job = ''f'' @ job ! 1)
         \<and> (hd job = ''p'' \<longrightarrow> signed_part job = ''p'' @ job ! 1 @ job ! 2)
         \<and> (hd job \<noteq> ''f'' \<and> hd job \<noteq> ''p'' \<longrightarrow> signed_part job = [])
         \<and> ((hd job = ''p'' \<longrightarrow> job ! 1 = ''thumb'') \<longrightarrow> signed_part job = spec_part job))"
    by (simp add: signed_part_def spec_part_def)
qed

theorem signed_message_all_p_jobs_witness:
  "list_all shaped [[''f'', ''a.jpg''], [''p'', ''crop'', ''10x10''], [''x''], [''p'', ''thumb'', ''1x'']]
   \<and> sha_loop [] [[''f'', ''a.jpg''], [''p'', ''crop'', ''10x10''], [''x''], [''p'', ''thumb'', ''1x'']]
       = Inr ''fa.jpgpcrop10x10pthumb1x''
   \<and> signed_part [''p'', ''thumb'', ''1x''] = spec_part [''p'', ''thumb'', ''1x'']"
proof -
  let ?J = "[[''f'', ''a.jpg''], [''p'', ''crop'', ''10x10''], [''x''], [''p'', ''thumb'', ''1x'']]"
  have a: "list_all shaped ?J"
    by code_simp
  have b: "concat (map signed_part ?J) = ''fa.jpgpcrop10x10pthumb1x''"
    by code_simp
  from a signed_message_all_p_jobs [of ?J "''s''"]
  have r: "sha_loop [] ?J = Inr (concat (map signed_part ?J))"
    and q: "\<forall>job \<in> set ?J. ((hd job = ''p'' \<longrightarrow> job ! 1 = ''thumb'') \<longrightarrow> signed_part job = spec_part job)"
    by blast+
  from r b have c: "sha_loop [] ?J = Inr ''fa.jpgpcrop10x10pthumb1x''"
    by (simp only:)
  have "[''p'', ''thumb'', ''1x''] \<in> set ?J"
    by simp
  with q have d: "signed_part [''p'', ''thumb'', ''1x''] = spec_part [''p'', ''thumb'', ''1x'']"
    by fastforce
  from a c d show ?thesis
    by (intro conjI)
qed

section \<open>The handler\<close>

lemma ServeHTTP_forwards:
  assumes "fst (ServeHTTP d req) = NextServeHTTP"
  shows "\<exists>base64String job_string jobs url.
           urlRegex (URL_Path req) = Some base64String
         \<and> DecodeString base64String = Some job_string
         \<and> Unmarshal job_string = Some jobs
         \<and> Get (Query (URL_RawQuery req)) ''sha'' \<noteq> []
         \<and> calculateSHA (DragonflySecret d) jobs = Inr (Get (Query (URL_RawQuery req)) ''sha'')
         \<and> generate_imgproxy_url (URLPrefix d) jobs = Inr url
         \<and> snd (ServeHTTP d req) = rewrite req url"
  using assms
  by (auto simp: ServeHTTP_def split: option.splits if_splits sum.splits)

lemma ServeHTTP_not_forwarded:
  assumes "fst (ServeHTTP d req) \<noteq> NextServeHTTP"
  shows "snd (ServeHTTP d req) = req"
  using assms
  by (auto simp: ServeHTTP_def split: option.splits if_splits sum.splits)

text \<open>
  Claim C1. When the signature of the request differs from the one computed over the
  decoded jobs with the configured secret, \<^verbatim>\<open>ServeHTTP\<close> does not call the next handler
  and leaves the request as it was (no rewrite is applied); when both signatures exist,
  the answer is the error of the signature check.
\<close>

theorem signature_mismatch_stops:
  assumes "urlRegex (URL_Path req) = Some base64String"
    and "DecodeString base64String = Some job_string"
    and "Unmarshal job_string = Some jobs"
    and "calculateSHA (DragonflySecret d) jobs \<noteq> Inr (Get (Query (URL_RawQuery req)) ''sha'')"
  shows "fst (ServeHTTP d req) \<noteq> NextServeHTTP \<and> snd (ServeHTTP d req) = req
       \<and> (\<forall>computed. calculateSHA (DragonflySecret d) jobs = Inr computed
                       \<and> Get (Query (URL_RawQuery req)) ''sha'' \<noteq> []
            \<longrightarrow> fst (ServeHTTP d req) = HttpError 500 ShaInvalid)"
proof -
  have "fst (ServeHTTP d req) \<noteq> NextServeHTTP"
  proof
    assume "fst (ServeHTTP d req) = NextServeHTTP"
    from ServeHTTP_forwards [OF this] assms show False
      by auto
  qed
  moreover from this have "snd (ServeHTTP d req) = req"
    by (rule ServeHTTP_not_forwarded)
  moreover have "fst (ServeHTTP d req) = HttpError 500 ShaInvalid"
    if "calculateSHA (DragonflySecret d) jobs = Inr computed"
      and "Get (Query (URL_RawQuery req)) ''sha'' \<noteq> []" for computed
    using that assms by (simp add: ServeHTTP_def StatusInternalServerError_def)
  ultimately show ?thesis
    by blast
qed

text \<open>
  Claim C10. When \<^verbatim>\<open>ServeHTTP\<close> ends with one of its error responses (no token in the
  path, no \<^verbatim>\<open>sha\<close> parameter, a payload that does not decode, a signature that does not
  match), the request is unmodified: its path, raw query, request URI and header are
  those it came with. The status is 500.
\<close>

theorem checked_failure_leaves_request:
  assumes "fst (ServeHTTP d req) = HttpError status failure"
  shows "snd (ServeHTTP d req) = req \<and> status = 500
       \<and> (failure = ExtractFailed \<longleftrightarrow> urlRegex (URL_Path req) = None)
       \<and> (failure = ShaMissing \<longrightarrow> Get (Query (URL_RawQuery req)) ''sha'' = [])"
  using assms
  by (auto simp: ServeHTTP_def StatusInternalServerError_def split: option.splits if_splits sum.splits)

lemma test_decodes:
  "urlRegex testPath = Some ''W1siZiIsInB1YmxpYy9pbWFnZXMvdGVzdC5qcGciXSxbInAiLCJ0aHVtYiIsIjQwMHgzMDAjIl1d''"
  "DecodeString ''W1siZiIsInB1YmxpYy9pbWFnZXMvdGVzdC5qcGciXSxbInAiLCJ0aHVtYiIsIjQwMHgzMDAjIl1d''
     = Some ''[[\"f\",\"public/images/test.jpg\"],[\"p\",\"thumb\",\"400x300#\"]]''"
  "Unmarshal ''[[\"f\",\"public/images/test.jpg\"],[\"p\",\"thumb\",\"400x300#\"]]''
     = Some [[''f'', ''public/images/test.jpg''], [''p'', ''thumb'', ''400x300#'']]"
  by code_simp+

lemma test_signature:
  "calculateSHA testSecret [[''f'', ''public/images/test.jpg''], [''p'', ''thumb'', ''400x300#'']]
     = Inr ''64a55c96897e7bad''"
  by code_simp

theorem signature_mismatch_stops_witness:
  "urlRegex (URL_Path (testRequest testPath ''sha=invalidsha''))
     = Some ''W1siZiIsInB1YmxpYy9pbWFnZXMvdGVzdC5qcGciXSxbInAiLCJ0aHVtYiIsIjQwMHgzMDAjIl1d''
   \<and> calculateSHA (DragonflySecret testConfig)
         [[''f'', ''public/images/test.jpg''], [''p'', ''thumb'', ''400x300#'']]
       \<noteq> Inr (Get (Query (URL_RawQuery (testRequest testPath ''sha=invalidsha''))) ''sha'')
   \<and> fst (ServeHTTP testConfig (testRequest testPath ''sha=invalidsha'')) = HttpError 500 ShaInvalid
   \<and> snd (ServeHTTP testConfig (testRequest testPath ''sha=invalidsha''))
       = testRequest testPath ''sha=invalidsha''"
proof -
  let ?req = "testRequest testPath ''sha=invalidsha''"
  let ?jobs = "[[''f'', ''public/images/test.jpg''], [''p'', ''thumb'', ''400x300#'']]"
  have q: "Get (Query (URL_RawQuery ?req)) ''sha'' = ''invalidsha''"
    by code_simp
  have a: "urlRegex (URL_Path ?req)
      = Some ''W1siZiIsInB1YmxpYy9pbWFnZXMvdGVzdC5qcGciXSxbInAiLCJ0aHVtYiIsIjQwMHgzMDAjIl1d''"
    using test_decodes(1) by (simp add: testRequest_def)
  have c: "calculateSHA (DragonflySecret testConfig) ?jobs = Inr ''64a55c96897e7bad''"
    using test_signature by (simp add: testConfig_def)
  have b: "calculateSHA (DragonflySecret testConfig) ?jobs \<noteq> Inr (Get (Query (URL_RawQuery ?req)) ''sha'')"
    unfolding q c by simp
  have n: "Get (Query (URL_RawQuery ?req)) ''sha'' \<noteq> []"
    unfolding q by simp
  from signature_mismatch_stops [OF a test_decodes(2) test_decodes(3) b] c n
  have "fst (ServeHTTP testConfig ?req) = HttpError 500 ShaInvalid"
    and "snd (ServeHTTP testConfig ?req) = ?req"
    by blast+
  with a b show ?thesis
    by (intro conjI)
qed

lemma test_failures:
  "fst (ServeHTTP testConfig (testRequest ''/foo/bar'' ''sha=64a55c96897e7bad'')) = HttpError 500 ExtractFailed"
  "fst (ServeHTTP testConfig (testRequest testPath [])) = HttpError 500 ShaMissing"
  "fst (ServeHTTP testConfig (testRequest ''/media/!not-valid-base64/image.jpg'' ''sha=64a55c96897e7bad''))
     = HttpError 500 Base64Error"
  "fst (ServeHTTP testConfig (testRequest ''/media/e30.jpg'' ''sha=64a55c96897e7bad'')) = HttpError 500 JSONError"
  by code_simp+

lemma test_mismatch:
  "fst (ServeHTTP testConfig (testRequest testPath ''sha=invalidsha'')) = HttpError 500 ShaInvalid"
  by code_simp

theorem checked_failure_leaves_request_witness:
  "snd (ServeHTTP testConfig (testRequest ''/foo/bar'' ''sha=64a55c96897e7bad''))
     = testRequest ''/foo/bar'' ''sha=64a55c96897e7bad''
   \<and> snd (ServeHTTP testConfig (testRequest testPath [])) = testRequest testPath []
   \<and> snd (ServeHTTP testConfig (testRequest ''/media/!not-valid-base64/image.jpg'' ''sha=64a55c96897e7bad''))
     = testRequest ''/media/!not-valid-base64/image.jpg'' ''sha=64a55c96897e7bad''
   \<and> snd (ServeHTTP testConfig (testRequest ''/media/e30.jpg'' ''sha=64a55c96897e7bad''))
     = testRequest ''/media/e30.jpg'' ''sha=64a55c96897e7bad''
   \<and> snd (ServeHTTP testConfig (testRequest testPath ''sha=invalidsha''))
     = testRequest testPath ''sha=invalidsha''"
  using checked_failure_leaves_request [OF test_failures(1)]
    checked_failure_leaves_request [OF test_failures(2)]
    checked_failure_leaves_request [OF test_failures(3)]
    checked_failure_leaves_request [OF test_failures(4)]
    checked_failure_leaves_request [OF test_mismatch]
  by blast

section \<open>Inputs on which the plugin departs from its specification\<close>

text \<open>
  Claim C9 fails on the code. The dot of \<^verbatim>\<open>.png\<close>, \<^verbatim>\<open>.jpeg\<close>, \<^verbatim>\<open>.jpg\<close>, \<^verbatim>\<open>.webp\<close>,
  \<^verbatim>\<open>.avif\<close> and \<^verbatim>\<open>.svg\<close> is not escaped in \<^verbatim>\<open>urlRegex\<close> (that of \<^verbatim>\<open>\.gif\<close> is), so a
  payload that ends with one of these names after any character loses its last
  characters: for the path \<^verbatim>\<open>/media/abcpng\<close> the token is \<^verbatim>\<open>ab\<close>, with or without an
  extension after it. A payload that ends with \<^verbatim>\<open>gif\<close> is extracted whole.
\<close>

theorem urlRegex_truncates_payload:
  "urlRegex ''/media/abcpng'' = Some ''ab''
   \<and> urlRegex ''/media/abcpng.jpg'' = Some ''ab''
   \<and> urlRegex ''/media/abcgif'' = Some ''abcgif''
   \<and> urlRegex ''/media/abcgif.jpg'' = Some ''abcgif''"
  by code_simp

text \<open>
  Claim C5 fails on the code. The payloads \<^verbatim>\<open>W1tdXQ\<close>, \<^verbatim>\<open>W1siZiJdXQ\<close> and
  \<^verbatim>\<open>W1sicCIsInRodW1iIl1d\<close> decode to \<^verbatim>\<open>[[]]\<close>, \<^verbatim>\<open>[["f"]]\<close> and \<^verbatim>\<open>[["p","thumb"]]\<close>;
  \<^verbatim>\<open>json.Unmarshal\<close> accepts all three, and \<^verbatim>\<open>ServeHTTP\<close> goes on to \<^verbatim>\<open>calculateSHA\<close>,
  which panics on the index of the missing element.
\<close>

theorem invalid_shape_panics:
  "DecodeString ''W1tdXQ'' = Some ''[[]]''
   \<and> Unmarshal ''[[]]'' = Some [[]]
   \<and> ServeHTTP testConfig (testRequest ''/media/W1tdXQ'' ''sha=64a55c96897e7bad'')
       = (Panicked (IndexOutOfRange 0 0), testRequest ''/media/W1tdXQ'' ''sha=64a55c96897e7bad'')
   \<and> Unmarshal ''[[\"f\"]]'' = Some [[''f'']]
   \<and> ServeHTTP testConfig (testRequest ''/media/W1siZiJdXQ'' ''sha=64a55c96897e7bad'')
       = (Panicked (IndexOutOfRange 1 1), testRequest ''/media/W1siZiJdXQ'' ''sha=64a55c96897e7bad'')
   \<and> Unmarshal ''[[\"p\",\"thumb\"]]'' = Some [[''p'', ''thumb'']]
   \<and> ServeHTTP testConfig (testRequest ''/media/W1sicCIsInRodW1iIl1d'' ''sha=64a55c96897e7bad'')
       = (Panicked (IndexOutOfRange 2 2), testRequest ''/media/W1sicCIsInRodW1iIl1d'' ''sha=64a55c96897e7bad'')"
  by code_simp

text \<open>
  Claim C4 fails on the code. For the jobs
  \<^verbatim>\<open>[["f","public/images/test.jpg"],["p","thumb","big"]]\<close> with their signature,
  \<^verbatim>\<open>generate_imgproxy_url\<close> returns the text \<^verbatim>\<open>Failed to extract job\<close>, and \<^verbatim>\<open>ServeHTTP\<close>
  makes it the path of the request and calls the next handler.
\<close>

theorem bad_size_is_forwarded:
  "thumbRegex ''big'' = None
   \<and> generate_imgproxy_url testURLPrefix [[''f'', ''public/images/test.jpg''], [''p'', ''thumb'', ''big'']]
       = Inr ''Failed to extract job''
   \<and> ServeHTTP testConfig
         (testRequest ''/media/W1siZiIsInB1YmxpYy9pbWFnZXMvdGVzdC5qcGciXSxbInAiLCJ0aHVtYiIsImJpZyJdXQ.jpg''
            ''sha=31dc369805b4a7e7'')
       = (NextServeHTTP,
          \<lparr>URL_Path = ''Failed to extract job'', URL_RawQuery = [],
           RequestURI = ''Failed to extract job'',
           Header = [(''Accept'', [''image/avif,image/webp,*/*''])]\<rparr>)"
  by code_simp

section \<open>Fetch jobs: the encoded path and the forced formats\<close>

subsection \<open>Splitting and cleaning paths\<close>

lemma split_on_no_sep: "sep \<notin> set s \<Longrightarrow> split_on sep acc s = [rev acc @ s]"
  by (induction s arbitrary: acc) auto

lemma split_on_append:
  "split_on sep acc (a @ sep # b) = split_on sep acc a @ split_on sep [] b"
  by (induction a arbitrary: acc) auto

lemma split_on_dir_of:
  "list_all plain_elem es \<Longrightarrow>
     split_on (CHR ''/'') [] (dir_of rooted es @ rest)
       = (if rooted then [[]] else []) @ es @ split_on (CHR ''/'') [] rest"
proof -
  assume pl: "list_all plain_elem es"
  have "split_on (CHR ''/'') [] (concat (map (\<lambda>e. e @ ''/'') es) @ rest) = es @ split_on (CHR ''/'') [] rest"
    using pl
  proof (induction es)
    case Nil
    then show ?case by simp
  next
    case (Cons e es)
    then have "CHR ''/'' \<notin> set e" by (simp add: plain_elem_def)
    then have "split_on (CHR ''/'') [] (e @ CHR ''/'' # (concat (map (\<lambda>e. e @ ''/'') es) @ rest))
        = [e] @ split_on (CHR ''/'') [] (concat (map (\<lambda>e. e @ ''/'') es) @ rest)"
      by (simp add: split_on_append split_on_no_sep)
    with Cons show ?case by simp
  qed
  then show ?thesis
    by (simp add: dir_of_def)
qed

lemma clean_elems_plain:
  "\<forall>e \<in> set xs. e = [] \<or> plain_elem e \<Longrightarrow>
     clean_elems rooted out xs = rev out @ filter (\<lambda>e. e \<noteq> []) xs"
  by (induction xs arbitrary: out) (auto simp: plain_elem_def)

lemma clean_elems_snoc:
  "plain_elem e \<Longrightarrow> clean_elems rooted out (xs @ [e]) = clean_elems rooted out xs @ [e]"
  by (induction xs arbitrary: out) (auto simp: plain_elem_def split: list.splits)

lemma join_elems_snoc:
  "join_elems (ys @ [e]) = (if ys = [] then e else join_elems ys @ ''/'' @ e)"
proof (induction ys)
  case Nil
  then show ?case by simp
next
  case (Cons y ys)
  then show ?case by (cases ys) auto
qed

lemma join_elems_dir:
  "join_elems (es @ [e]) = concat (map (\<lambda>x. x @ ''/'') es) @ e"
proof (induction es)
  case Nil
  then show ?case by simp
next
  case (Cons x es)
  then show ?case by (cases "es @ [e]") auto
qed

lemma plain_hd: "plain_elem e \<Longrightarrow> hd e \<noteq> CHR ''/''"
  by (cases e) (auto simp: plain_elem_def)

lemma Clean_plain:
  assumes "plain_elem e"
  shows "Clean e = e"
proof -
  have "split_on (CHR ''/'') [] e = [e]"
    using assms by (simp add: split_on_no_sep plain_elem_def)
  moreover have "clean_elems r [] [e] = [e]" for r
    using assms by (simp add: plain_elem_def)
  ultimately show ?thesis
    using assms plain_hd [OF assms] by (simp add: Clean_def Let_def plain_elem_def)
qed

lemma Join_suffix:
  assumes "plain_elem e"
  shows "suffix e (Join d e)"
proof (cases "d = []")
  case True
  with assms show ?thesis
    by (simp add: Join_def Clean_plain plain_elem_def)
next
  case False
  have s: "split_on (CHR ''/'') [] (d @ CHR ''/'' # e) = split_on (CHR ''/'') [] d @ [e]"
    using assms by (simp add: split_on_append split_on_no_sep plain_elem_def)
  have "suffix e (join_elems (clean_elems r [] (split_on (CHR ''/'') [] d) @ [e]))" for r
    by (simp add: join_elems_snoc suffix_def)
  then have "suffix e (Clean (d @ CHR ''/'' # e))"
    using assms
    by (auto simp: Clean_def Let_def s clean_elems_snoc suffix_Cons)
  with False show ?thesis
    by (simp add: Join_def)
qed

lemma Join_dir_of:
  assumes "list_all plain_elem es" "plain_elem e"
  shows "Join (dir_of rooted es) e = dir_of rooted es @ e"
proof (cases "dir_of rooted es = []")
  case True
  with assms(2) show ?thesis
    by (simp add: Join_def Clean_plain plain_elem_def)
next
  case False
  have hd: "(hd (dir_of rooted es @ CHR ''/'' # e) = CHR ''/'') = rooted"
  proof (cases rooted)
    case True
    then show ?thesis by (simp add: dir_of_def)
  next
    case no: False
    with False obtain x xs where es: "es = x # xs"
      by (cases es) (auto simp: dir_of_def)
    with assms(1) have "plain_elem x" by simp
    then obtain c cs where "x = c # cs" "c \<noteq> CHR ''/''"
      by (cases x) (auto simp: plain_elem_def)
    with no es show ?thesis by (simp add: dir_of_def)
  qed
  have sp: "split_on (CHR ''/'') [] (dir_of rooted es @ CHR ''/'' # e)
      = (if rooted then [[]] else []) @ es @ [[], e]"
    using assms by (simp add: split_on_dir_of split_on_no_sep plain_elem_def)
  have all: "\<forall>x \<in> set ((if rooted then [[]] else []) @ es @ [[], e]). x = [] \<or> plain_elem x"
    using assms by (auto simp: list_all_iff)
  have ne: "filter (\<lambda>e. e \<noteq> []) es = es"
    using assms(1) by (auto simp: list_all_iff plain_elem_def filter_id_conv)
  have e: "e \<noteq> []"
    using assms(2) by (simp add: plain_elem_def)
  have cl: "clean_elems rooted [] (split_on (CHR ''/'') [] (dir_of rooted es @ CHR ''/'' # e)) = es @ [e]"
    unfolding sp clean_elems_plain [OF all] using ne e by simp
  have "Clean (dir_of rooted es @ CHR ''/'' # e) = dir_of rooted es @ e"
    unfolding Clean_def Let_def hd cl
    by (simp add: join_elems_dir dir_of_def)
  with False show ?thesis
    by (simp add: Join_def)
qed

lemma Split_props:
  assumes "Split path = (d, f)"
  shows "path = d @ f" "CHR ''/'' \<notin> set f" "d = [] \<or> last d = CHR ''/''"
proof -
  let ?P = "\<lambda>c. c \<noteq> CHR ''/''"
  have f: "f = rev (takeWhile ?P (rev path))"
    using assms by (simp add: Split_def Let_def)
  have "rev path = takeWhile ?P (rev path) @ dropWhile ?P (rev path)"
    by simp
  then have "path = rev (dropWhile ?P (rev path)) @ f"
    unfolding f by (metis rev_append rev_rev_ident)
  moreover have d: "d = take (length path - length f) path"
    using assms by (simp add: Split_def Let_def f)
  ultimately have d': "d = rev (dropWhile ?P (rev path))"
    by (metis append_eq_conv_conj diff_add_inverse2 length_append)
  show "path = d @ f"
    using \<open>path = rev (dropWhile ?P (rev path)) @ f\<close> d' by simp
  show "CHR ''/'' \<notin> set f"
    unfolding f using set_takeWhileD by fastforce
  show "d = [] \<or> last d = CHR ''/''"
  proof (cases "dropWhile ?P (rev path)")
    case Nil
    then show ?thesis using d' by simp
  next
    case (Cons c cs)
    then have "\<not> ?P c"
      using hd_dropWhile [of ?P "rev path"] by (metis list.sel(1) list.distinct(1))
    with Cons d' show ?thesis by simp
  qed
qed

lemma Split_append:
  assumes "CHR ''/'' \<notin> set f" "d = [] \<or> last d = CHR ''/''"
  shows "Split (d @ f) = (d, f)"
proof -
  let ?P = "\<lambda>c. c \<noteq> CHR ''/''"
  have "takeWhile ?P (rev f @ rev d) = rev f"
  proof (cases d rule: rev_cases)
    case Nil
    with assms(1) show ?thesis by (auto simp: takeWhile_eq_all_conv)
  next
    case (snoc ys y)
    with assms(2) have "y = CHR ''/''" by simp
    with snoc assms(1) show ?thesis by (auto simp: takeWhile_tail)
  qed
  then show ?thesis
    by (simp add: Split_def Let_def)
qed

subsection \<open>Escaping the file name\<close>

lemma ReplaceAll_append:
  "ReplaceAll (a @ b) old new = ReplaceAll a old new @ ReplaceAll b old new"
  by (induction a) auto

lemma ReplaceAll_notin: "old \<notin> set new \<Longrightarrow> old \<notin> set (ReplaceAll s old new)"
  by (induction s) auto

lemma customEscape_append: "customEscape (a @ b) = customEscape a @ customEscape b"
  by (simp add: customEscape_def QueryEscape_def ReplaceAll_append)

lemma customEscape_Nil: "customEscape [] = []"
  by (simp add: customEscape_def QueryEscape_def)

lemma customEscape_Cons: "customEscape (c # cs) = customEscape [c] @ customEscape cs"
  using customEscape_append [of "[c]" cs] by simp

lemma upperhex_in: "upperhex n \<in> set ''0123456789ABCDEF''"
  unfolding upperhex_def by (rule nth_mem) simp

lemma upperhex_neq:
  "upperhex n \<noteq> CHR ''+''" "upperhex n \<noteq> CHR ''/''"
  "CHR ''+'' \<noteq> upperhex n" "CHR ''/'' \<noteq> upperhex n"
  using upperhex_in [of n] by auto

lemma customEscape_single:
  "customEscape [c] =
     (if c = CHR '' '' then ''%20''
      else if shouldEscape c then [CHR ''%'', upperhex (byte c div 16), upperhex (byte c mod 16)]
      else [c])"
proof -
  have "\<not> shouldEscape c \<Longrightarrow> c \<noteq> CHR ''+''"
    by (auto simp: shouldEscape_def is_alnum_def is_digit_def byte_def)
  then show ?thesis
    by (auto simp: customEscape_def QueryEscape_def escape_byte_def upperhex_neq)
qed

lemma customEscape_space: "customEscape '' '' = ''%20''"
  by (simp add: customEscape_single)

lemma customEscape_percent: "customEscape ''%'' = ''%25''"
  by code_simp

lemma customEscape_no_plus: "CHR ''+'' \<notin> set (customEscape s)"
  unfolding customEscape_def by (rule ReplaceAll_notin) simp

lemma customEscape_no_slash: "CHR ''/'' \<notin> set (customEscape s)"
proof (induction s)
  case Nil
  then show ?case by (simp add: customEscape_Nil)
next
  case (Cons c s)
  have "shouldEscape (CHR ''/'')"
    by (simp add: shouldEscape_def is_alnum_def is_digit_def byte_def)
  then have "CHR ''/'' \<notin> set (customEscape [c])"
    by (auto simp: customEscape_single upperhex_neq)
  with Cons show ?case
    using customEscape_Cons [of c s] by simp
qed

lemma customEscape_eq_Nil: "customEscape s = [] \<longleftrightarrow> s = []"
proof (cases s)
  case Nil
  then show ?thesis by (simp add: customEscape_Nil)
next
  case (Cons c cs)
  have "customEscape [c] \<noteq> []"
    by (simp add: customEscape_single)
  with Cons show ?thesis
    using customEscape_Cons [of c cs] by simp
qed

lemma not_escape_dot: "\<not> shouldEscape (CHR ''.'')"
  by (simp add: shouldEscape_def)

lemma customEscape_eq_dot: "customEscape s = ''.'' \<longleftrightarrow> s = ''.''"
proof (cases s)
  case Nil
  then show ?thesis by (simp add: customEscape_Nil)
next
  case (Cons c cs)
  show ?thesis
    unfolding Cons customEscape_Cons [of c cs]
    by (auto simp: customEscape_single customEscape_eq_Nil not_escape_dot Cons_eq_append_conv)
qed

lemma customEscape_eq_dotdot: "customEscape s = ''..'' \<longleftrightarrow> s = ''..''"
proof (cases s)
  case Nil
  then show ?thesis by (simp add: customEscape_Nil)
next
  case (Cons c cs)
  show ?thesis
    unfolding Cons customEscape_Cons [of c cs]
    by (auto simp: customEscape_single customEscape_eq_dot customEscape_eq_Nil not_escape_dot
        Cons_eq_append_conv)
qed

lemma customEscape_plain: "plain_elem f \<Longrightarrow> plain_elem (customEscape f)"
  by (simp add: plain_elem_def customEscape_eq_Nil customEscape_eq_dot customEscape_eq_dotdot
      customEscape_no_slash)

lemma encodedFilePath_Split:
  "encodedFilePath path = Join (fst (Split path)) (customEscape (snd (Split path)))"
  by (simp add: encodedFilePath_def Let_def split_beta)

lemma dir_of_last: "dir_of rooted es = [] \<or> last (dir_of rooted es) = CHR ''/''"
  by (induction es rule: rev_induct) (auto simp: dir_of_def)

lemma encodedFilePath_plain:
  assumes "list_all plain_elem es" "plain_elem fileName"
  shows "encodedFilePath (dir_of rooted es @ fileName) = dir_of rooted es @ customEscape fileName"
proof -
  have "Split (dir_of rooted es @ fileName) = (dir_of rooted es, fileName)"
    using assms(2) dir_of_last [of rooted es] by (intro Split_append) (auto simp: plain_elem_def)
  then show ?thesis
    using Join_dir_of [OF assms(1) customEscape_plain [OF assms(2)]]
    by (simp add: encodedFilePath_Split)
qed

text \<open>
  Claim C8, as stated, fails: the directory is not left as it is. \<^verbatim>\<open>filepath.Join\<close> cleans
  the joined path, so the directory \<^verbatim>\<open>a//\<close> becomes \<^verbatim>\<open>a/\<close> and the directory
  \<^verbatim>\<open>http://h/\<close> becomes \<^verbatim>\<open>http:/h/\<close>.
\<close>

theorem directory_is_cleaned_counterexample:
  "Split ''a//b c.jpg'' = (''a//'', ''b c.jpg'')
   \<and> generate_imgproxy_url [] [[''f'', ''a//b c.jpg'']] = Inr ''/insecure/plain/a/b%20c.jpg''
   \<and> Split ''http://h/x.jpg'' = (''http://h/'', ''x.jpg'')
   \<and> generate_imgproxy_url [] [[''f'', ''http://h/x.jpg'']] = Inr ''/insecure/plain/http:/h/x.jpg''"
  by code_simp

text \<open>
  Claim C8, amended. For every fetch job, only the file name of the path (the text
  after its last slash) is percent-encoded, and the path that is emitted is the
  directory joined with the encoded file name and cleaned. If the path is made of
  plain elements (none empty, \<^verbatim>\<open>.\<close> or \<^verbatim>\<open>..\<close>) separated by single slashes, with or
  without a leading slash, then cleaning changes nothing and the directory is left as
  it is. In the file name a space becomes \<^verbatim>\<open>%20\<close>, a plus sign is never produced, and
  a \<^verbatim>\<open>%\<close> becomes \<^verbatim>\<open>%25\<close>; encoding is not idempotent: on \<^verbatim>\<open>a b%20c\<close> encoding twice
  differs from encoding once.
\<close>

theorem only_file_name_is_escaped:
  "fetch_job st path =
     st\<lparr>imgproxy_url := ''/plain/'' @ imgproxy_url st
             @ Join (fst (Split path)) (customEscape (snd (Split path))),
        is_gif := (HasSuffix (''/plain/'' @ imgproxy_url st
             @ Join (fst (Split path)) (customEscape (snd (Split path)))) ''.gif'' \<or> is_gif st),
        is_svg := (HasSuffix (''/plain/'' @ imgproxy_url st
             @ Join (fst (Split path)) (customEscape (snd (Split path)))) ''.svg'' \<or> is_svg st)\<rparr>
   \<and> (list_all plain_elem es \<and> plain_elem fileName \<longrightarrow>
        Split (dir_of rooted es @ fileName) = (dir_of rooted es, fileName)
      \<and> encodedFilePath (dir_of rooted es @ fileName) = dir_of rooted es @ customEscape fileName)
   \<and> customEscape (a @ '' '' @ b) = customEscape a @ ''%20'' @ customEscape b
   \<and> CHR ''+'' \<notin> set (customEscape s)
   \<and> customEscape (a @ ''%'' @ b) = customEscape a @ ''%25'' @ customEscape b
   \<and> customEscape (customEscape ''a b%20c'') \<noteq> customEscape ''a b%20c''"
proof -
  have 1: "fetch_job st path =
     st\<lparr>imgproxy_url := ''/plain/'' @ imgproxy_url st
             @ Join (fst (Split path)) (customEscape (snd (Split path))),
        is_gif := (HasSuffix (''/plain/'' @ imgproxy_url st
             @ Join (fst (Split path)) (customEscape (snd (Split path)))) ''.gif'' \<or> is_gif st),
        is_svg := (HasSuffix (''/plain/'' @ imgproxy_url st
             @ Join (fst (Split path)) (customEscape (snd (Split path)))) ''.svg'' \<or> is_svg st)\<rparr>"
    by (simp add: fetch_job_def Let_def encodedFilePath_Split)
  have 2: "Split (dir_of rooted es @ fileName) = (dir_of rooted es, fileName)
      \<and> encodedFilePath (dir_of rooted es @ fileName) = dir_of rooted es @ customEscape fileName"
    if "list_all plain_elem es" "plain_elem fileName"
    using that encodedFilePath_plain [OF that] dir_of_last [of rooted es]
    by (auto intro!: Split_append simp: plain_elem_def)
  have 3: "customEscape (a @ '' '' @ b) = customEscape a @ ''%20'' @ customEscape b"
    using customEscape_space by (simp only: customEscape_append)
  have 4: "customEscape (a @ ''%'' @ b) = customEscape a @ ''%25'' @ customEscape b"
    using customEscape_percent by (simp only: customEscape_append)
  have 5: "customEscape (customEscape ''a b%20c'') \<noteq> customEscape ''a b%20c''"
    by code_simp
  from 1 2 3 4 5 customEscape_no_plus show ?thesis
    by blast
qed

theorem only_file_name_is_escaped_witness:
  "list_all plain_elem [''public'', ''my images''] \<and> plain_elem ''my nice+image 100%.jpg''
   \<and> encodedFilePath ''public/my images/my nice+image 100%.jpg''
       = ''public/my images/my%20nice%2Bimage%20100%25.jpg''"
proof -
  have a: "list_all plain_elem [''public'', ''my images'']"
    by code_simp
  have b: "plain_elem ''my nice+image 100%.jpg''"
    by code_simp
  have c: "dir_of False [''public'', ''my images''] = ''public/my images/''"
    by code_simp
  have d: "customEscape ''my nice+image 100%.jpg'' = ''my%20nice%2Bimage%20100%25.jpg''"
    by code_simp
  from a b only_file_name_is_escaped [of _ _ "[''public'', ''my images'']" "''my nice+image 100%.jpg''" False]
  have "encodedFilePath (dir_of False [''public'', ''my images''] @ ''my nice+image 100%.jpg'')
      = dir_of False [''public'', ''my images''] @ customEscape ''my nice+image 100%.jpg''"
    by blast
  then have "encodedFilePath ''public/my images/my nice+image 100%.jpg''
       = ''public/my images/my%20nice%2Bimage%20100%25.jpg''"
    unfolding c d by simp
  with a b show ?thesis
    by (intro conjI)
qed

subsection \<open>Forced formats\<close>

lemma HasSuffix_suffix: "HasSuffix s suf \<longleftrightarrow> suffix suf s"
proof
  assume "HasSuffix s suf"
  then have "s = take (length s - length suf) s @ suf"
    by (metis HasSuffix_def append_take_drop_id)
  then show "suffix suf s"
    by (metis suffixI)
next
  assume "suffix suf s"
  then obtain p where "s = p @ suf"
    by (auto simp: suffix_def)
  then show "HasSuffix s suf"
    by (simp add: HasSuffix_def)
qed

lemma suffix_of_file:
  assumes "suffix ext path" "CHR ''/'' \<notin> set ext"
  shows "suffix ext (snd (Split path))"
proof -
  obtain d f where sp: "Split path = (d, f)"
    by (cases "Split path")
  note p = Split_props [OF sp]
  from assms(1) p(1) have "suffix ext f \<or> (\<exists>xs'. suffix xs' d \<and> ext = xs' @ f)"
    by (auto simp: suffix_append)
  then show ?thesis
  proof
    assume "suffix ext f"
    with sp show ?thesis by simp
  next
    assume "\<exists>xs'. suffix xs' d \<and> ext = xs' @ f"
    then obtain xs' where x: "suffix xs' d" "ext = xs' @ f"
      by blast
    show ?thesis
    proof (cases "xs' = []")
      case True
      with x sp show ?thesis by simp
    next
      case False
      with x(1) have "d \<noteq> []" "last xs' = last d"
        by (auto simp: suffix_def)
      with p(3) False have "CHR ''/'' \<in> set xs'"
        using last_in_set by metis
      with x(2) assms(2) show ?thesis by simp
    qed
  qed
qed

lemma encodedFilePath_suffix:
  assumes "suffix ext path" "CHR ''/'' \<notin> set ext" "customEscape ext = ext" "3 \<le> length ext"
  shows "suffix ext (encodedFilePath path)"
proof -
  let ?f = "snd (Split path)"
  from suffix_of_file [OF assms(1,2)] obtain x where f: "?f = x @ ext"
    by (auto simp: suffix_def)
  then have e: "customEscape ?f = customEscape x @ ext"
    by (simp add: customEscape_append assms(3))
  have "CHR ''/'' \<notin> set ?f"
    using Split_props(2) [of path "fst (Split path)" ?f] by simp
  moreover have "3 \<le> length ?f"
    using f assms(4) by simp
  ultimately have "plain_elem ?f"
    by (auto simp: plain_elem_def)
  then have "suffix (customEscape ?f) (encodedFilePath path)"
    unfolding encodedFilePath_Split by (intro Join_suffix customEscape_plain)
  moreover have "suffix ext (customEscape ?f)"
    unfolding e by (simp add: suffix_def)
  ultimately show ?thesis
    by (rule suffix_order.trans [rotated])
qed

lemma customEscape_gif_svg: "customEscape ''.gif'' = ''.gif''" "customEscape ''.svg'' = ''.svg''"
  by code_simp+

lemma fetch_job_flag:
  "suffix ext (encodedFilePath path) \<Longrightarrow>
     HasSuffix (''/plain/'' @ (imgproxy_url st @ encodedFilePath path)) ext"
  by (simp only: HasSuffix_suffix suffix_appendI)

lemma fetch_job_gif:
  assumes "suffix ''.gif'' path"
  shows "is_gif (fetch_job st path)"
proof -
  have "suffix ''.gif'' (encodedFilePath path)"
    using assms by (intro encodedFilePath_suffix) (simp_all add: customEscape_gif_svg)
  from fetch_job_flag [OF this, of st] show ?thesis
    by (simp add: fetch_job_def Let_def)
qed

lemma fetch_job_svg:
  assumes "suffix ''.svg'' path"
  shows "is_svg (fetch_job st path)"
proof -
  have "suffix ''.svg'' (encodedFilePath path)"
    using assms by (intro encodedFilePath_suffix) (simp_all add: customEscape_gif_svg)
  from fetch_job_flag [OF this, of st] show ?thesis
    by (simp add: fetch_job_def Let_def)
qed

lemma fetch_job_fields:
  "imgproxy_url (fetch_job st path) = ''/plain/'' @ imgproxy_url st @ encodedFilePath path"
  "thumb_operation (fetch_job st path) = thumb_operation st"
  "is_gif st \<Longrightarrow> is_gif (fetch_job st path)"
  by (simp_all add: fetch_job_def Let_def)

lemma gen_job_cases:
  assumes "gen_job st job = Continue st'"
  shows "(\<exists>path. st' = fetch_job st path)
       \<or> (\<exists>w h op. st' = st\<lparr>thumb_operation := thumb_operation st @ resize w h op
                                 @ (if is_gif st then ''/f:gif'' else [])\<rparr>)
       \<or> st' = st"
  using assms
  by (auto simp: gen_job_def thumb_job_def split: sum.splits if_splits option.splits)

lemma gen_job_mono:
  assumes "gen_job st job = Continue st'"
  shows "(is_gif st \<longrightarrow> is_gif st') \<and> (\<exists>x. thumb_operation st' = thumb_operation st @ x)"
  using gen_job_cases [OF assms] by (auto simp: fetch_job_fields)

lemma gen_loop_mono:
  "gen_loop st jobs = Continue st' \<Longrightarrow>
     (is_gif st \<longrightarrow> is_gif st') \<and> (\<exists>x. thumb_operation st' = thumb_operation st @ x)"
proof (induction jobs arbitrary: st)
  case Nil
  then show ?case by simp
next
  case (Cons job jobs)
  from Cons.prems obtain st1 where 1: "gen_job st job = Continue st1" and 2: "gen_loop st1 jobs = Continue st'"
    by (auto split: flow.splits)
  from gen_job_mono [OF 1] Cons.IH [OF 2] show ?case
    by auto
qed

lemma gen_loop_append:
  "gen_loop st (xs @ ys) =
     (case gen_loop st xs of Panic p \<Rightarrow> Panic p | Return s \<Rightarrow> Return s | Continue st' \<Rightarrow> gen_loop st' ys)"
  by (induction xs arbitrary: st) (auto split: flow.splits)

lemma gen_job_inert: "inert job \<Longrightarrow> gen_job st job = Continue st"
proof -
  assume i: "inert job"
  then obtain tag rest where job: "job = tag # rest"
    by (cases job) (auto simp: inert_def)
  show ?thesis
  proof (cases "tag = ''p''")
    case True
    with i job obtain sub rest' where "rest = sub # rest'" "sub \<noteq> ''thumb''"
      by (cases rest) (auto simp: inert_def)
    with True job show ?thesis
      by (simp add: gen_job_def index_simps)
  next
    case False
    with i job show ?thesis
      by (simp add: gen_job_def index_simps inert_def)
  qed
qed

lemma gen_loop_inert: "list_all inert jobs \<Longrightarrow> gen_loop st jobs = Continue st"
  by (induction jobs) (simp_all add: gen_job_inert)

lemma gen_job_fetch: "gen_job st [''f'', path] = Continue (fetch_job st path)"
  by (simp add: gen_job_def index_simps)

lemma gen_job_thumb: "gen_job st [''p'', ''thumb'', spec] = thumb_job st spec"
  by (simp add: gen_job_def index_simps)

lemma gif_after_fetch:
  assumes "suffix ''.gif'' path" and "thumbRegex spec = Some (w, h, op)"
    and "gen_loop (gen_init url_prefix) (pre @ [''f'', path] # mid @ [''p'', ''thumb'', spec] # post) = Continue st"
  shows "generate_imgproxy_url url_prefix (pre @ [''f'', path] # mid @ [''p'', ''thumb'', spec] # post)
           = Inr (gen_final st)"
    and "sublist (resize w h op @ ''/f:gif'') (gen_final st)"
proof -
  show "generate_imgproxy_url url_prefix (pre @ [''f'', path] # mid @ [''p'', ''thumb'', spec] # post)
           = Inr (gen_final st)"
    using assms(3) by (simp add: generate_imgproxy_url_def)
  from assms(3) obtain s1 where 1: "gen_loop (gen_init url_prefix) pre = Continue s1"
    and 2: "gen_loop s1 ([''f'', path] # mid @ [''p'', ''thumb'', spec] # post) = Continue st"
    by (auto simp: gen_loop_append split: flow.splits)
  from 2 have 3: "gen_loop (fetch_job s1 path) (mid @ [''p'', ''thumb'', spec] # post) = Continue st"
    by (simp add: gen_job_fetch)
  then obtain s2 where 4: "gen_loop (fetch_job s1 path) mid = Continue s2"
    and 5: "gen_loop s2 ([''p'', ''thumb'', spec] # post) = Continue st"
    by (auto simp: gen_loop_append split: flow.splits)
  have g: "is_gif s2"
    using gen_loop_mono [OF 4] fetch_job_gif [OF assms(1)] by simp
  let ?s3 = "s2\<lparr>thumb_operation := thumb_operation s2 @ resize w h op @ ''/f:gif''\<rparr>"
  from 5 have 6: "gen_loop ?s3 post = Continue st"
    using g assms(2) by (simp add: gen_job_thumb thumb_job_def)
  from gen_loop_mono [OF 6] obtain x where
    "thumb_operation st = thumb_operation s2 @ resize w h op @ ''/f:gif'' @ x"
    by auto
  then have "gen_final st = (''/insecure'' @ thumb_operation s2) @ (resize w h op @ ''/f:gif'')
      @ (x @ (if is_svg st then ''/f:svg'' @ imgproxy_url st else imgproxy_url st))"
    by (simp add: gen_final_def)
  then show "sublist (resize w h op @ ''/f:gif'') (gen_final st)"
    unfolding sublist_def by blast
qed

lemma svg_alone:
  assumes "suffix ''.svg'' path" "list_all inert pre" "list_all inert post"
  shows "generate_imgproxy_url url_prefix (pre @ [''f'', path] # post)
           = Inr (''/insecure/f:svg/plain/'' @ url_prefix @ encodedFilePath path)"
proof -
  have "gen_loop (gen_init url_prefix) (pre @ [''f'', path] # post)
      = Continue (fetch_job (gen_init url_prefix) path)"
    using assms(2,3) by (simp add: gen_loop_append gen_loop_inert gen_job_fetch)
  then show ?thesis
    using fetch_job_svg [OF assms(1), of "gen_init url_prefix"]
    by (simp add: generate_imgproxy_url_def gen_final_def fetch_job_fields gen_init_def)
qed

text \<open>
  Claim C7, as stated, fails twice. In the job list
  \<^verbatim>\<open>[["p","thumb","100x100#"],["f","a.gif"]]\<close> the thumb job is interpreted before the
  fetch has set the flag, and the translated URL has no \<^verbatim>\<open>/f:gif\<close>. In the job list
  \<^verbatim>\<open>[["f","a.svg"],["f","b.jpg"]]\<close>, which has a fetch of a \<^verbatim>\<open>.svg\<close> and no thumb job,
  the URL is not \<^verbatim>\<open>/insecure/f:svg/plain/\<close> followed by the prefix and the path.
\<close>

theorem forced_format_counterexample:
  "generate_imgproxy_url ''P/'' [[''p'', ''thumb'', ''100x100#''], [''f'', ''a.gif'']]
     = Inr ''/insecure/rs:fill:100:100:g:ce/plain/P/a.gif''
   \<and> \<not> sublist ''/f:gif'' ''/insecure/rs:fill:100:100:g:ce/plain/P/a.gif''
   \<and> generate_imgproxy_url ''P/'' [[''f'', ''a.svg''], [''f'', ''b.jpg'']]
     = Inr ''/insecure/f:svg/plain//plain/P/a.svgb.jpg''"
  by code_simp

text \<open>
  Claim C7, amended. In a job list that is interpreted to its end, a thumb job
  \<^verbatim>\<open>["p","thumb",size]\<close> that comes after a fetch job \<^verbatim>\<open>["f",path]\<close> whose path ends in
  \<^verbatim>\<open>.gif\<close> has \<^verbatim>\<open>/f:gif\<close> immediately after its resize directive in the translated
  URL. For a job list with one fetch job \<^verbatim>\<open>["f",path]\<close>, of a path ending in \<^verbatim>\<open>.svg\<close>,
  and otherwise only jobs that the translator passes over, the translated URL is
  \<^verbatim>\<open>/insecure/f:svg/plain/\<close>, the prefix and the encoded path.
\<close>

theorem forced_format_in_order:
  "(suffix ''.gif'' path \<and> thumbRegex spec = Some (w, h, op)
      \<and> gen_loop (gen_init url_prefix) (pre @ [''f'', path] # mid @ [''p'', ''thumb'', spec] # post)
          = Continue st
    \<longrightarrow> generate_imgproxy_url url_prefix (pre @ [''f'', path] # mid @ [''p'', ''thumb'', spec] # post)
          = Inr (gen_final st)
      \<and> sublist (resize w h op @ ''/f:gif'') (gen_final st))
   \<and> (suffix ''.svg'' path' \<and> list_all inert pre' \<and> list_all inert post'
    \<longrightarrow> generate_imgproxy_url url_prefix (pre' @ [''f'', path'] # post')
          = Inr (''/insecure/f:svg/plain/'' @ url_prefix @ encodedFilePath path'))"
proof (intro conjI impI)
  assume a: "suffix ''.gif'' path \<and> thumbRegex spec = Some (w, h, op)
      \<and> gen_loop (gen_init url_prefix) (pre @ [''f'', path] # mid @ [''p'', ''thumb'', spec] # post)
          = Continue st"
  then show "generate_imgproxy_url url_prefix (pre @ [''f'', path] # mid @ [''p'', ''thumb'', spec] # post)
          = Inr (gen_final st)"
    by (intro gif_after_fetch(1) [of path spec w h op]) simp_all
  from a show "sublist (resize w h op @ ''/f:gif'') (gen_final st)"
    by (intro gif_after_fetch(2) [of path spec w h op url_prefix pre mid post]) simp_all
next
  assume "suffix ''.svg'' path' \<and> list_all inert pre' \<and> list_all inert post'"
  then show "generate_imgproxy_url url_prefix (pre' @ [''f'', path'] # post')
          = Inr (''/insecure/f:svg/plain/'' @ url_prefix @ encodedFilePath path')"
    by (intro svg_alone) simp_all
qed

theorem forced_format_in_order_witness:
  "suffix ''.gif'' ''public/animated.gif'' \<and> thumbRegex ''150x150#'' = Some (''150'', ''150'', ''#'')
   \<and> generate_imgproxy_url testURLPrefix
        ([[''x'']] @ [''f'', ''public/animated.gif''] # [[''p'', ''crop'']] @ [''p'', ''thumb'', ''150x150#''] # [])
      = Inr ''/insecure/rs:fill:150:150:g:ce/f:gif/plain/https://images.example.com/public/animated.gif''
   \<and> sublist (resize ''150'' ''150'' ''#'' @ ''/f:gif'')
        ''/insecure/rs:fill:150:150:g:ce/f:gif/plain/https://images.example.com/public/animated.gif''
   \<and> suffix ''.svg'' ''public/vector.svg'' \<and> list_all inert [[''p'', ''crop'', ''1x1'']] \<and> list_all inert [[''x'']]
   \<and> generate_imgproxy_url testURLPrefix ([[''p'', ''crop'', ''1x1'']] @ [''f'', ''public/vector.svg''] # [[''x'']])
      = Inr (''/insecure/f:svg/plain/'' @ testURLPrefix @ encodedFilePath ''public/vector.svg'')"
proof -
  let ?jobs = "[[''x'']] @ [''f'', ''public/animated.gif''] # [[''p'', ''crop'']] @ [''p'', ''thumb'', ''150x150#''] # []"
  let ?st = "\<lparr>imgproxy_url = ''/plain/https://images.example.com/public/animated.gif'',
              thumb_operation = ''/rs:fill:150:150:g:ce/f:gif'', is_gif = True, is_svg = False\<rparr>"
  have a: "suffix ''.gif'' ''public/animated.gif''"
    by code_simp
  have b: "thumbRegex ''150x150#'' = Some (''150'', ''150'', ''#'')"
    by code_simp
  have c: "gen_loop (gen_init testURLPrefix) ?jobs = Continue ?st"
    by code_simp
  have d: "gen_final ?st
      = ''/insecure/rs:fill:150:150:g:ce/f:gif/plain/https://images.example.com/public/animated.gif''"
    by code_simp
  have e: "suffix ''.svg'' ''public/vector.svg''"
    by code_simp
  have f: "list_all inert [[''p'', ''crop'', ''1x1'']]" "list_all inert [[''x'']]"
    by code_simp+
  note t = forced_format_in_order [of "''public/animated.gif''" "''150x150#''" "''150''" "''150''" "''#''"
      testURLPrefix "[[''x'']]" "[[''p'', ''crop'']]" "[]" ?st
      "''public/vector.svg''" "[[''p'', ''crop'', ''1x1'']]" "[[''x'']]"]
  from t a b c have g: "generate_imgproxy_url testURLPrefix ?jobs = Inr (gen_final ?st)"
    and h: "sublist (resize ''150'' ''150'' ''#'' @ ''/f:gif'') (gen_final ?st)"
    by blast+
  from t e f have i: "generate_imgproxy_url testURLPrefix ([[''p'', ''crop'', ''1x1'']] @ [''f'', ''public/vector.svg''] # [[''x'']])
      = Inr (''/insecure/f:svg/plain/'' @ testURLPrefix @ encodedFilePath ''public/vector.svg'')"
    by blast
  from a b g h e f i show ?thesis
    unfolding d by (intro conjI)
qed

end
